theory Spec2Isabelle
  imports Complex_Main "HOL-Library.Multiset" "HOL-Library.Product_Lexorder"
begin

section \<open>Exceptions\<close>

text \<open>
  The exceptions the analysed code can raise, as values. The repository defines no
  exception classes of its own; it raises Python's built-in ones:
  \<^item> \<open>ValueError\<close>: raised by numpy inside \<open>color_quantization\<close> when the list of
    mandatory colours is empty (the subtraction \<open>mandatory_colors - np.array(pixel_value)\<close>
    cannot broadcast shapes \<open>(0,)\<close> and \<open>(3,)\<close>);
  \<^item> \<open>NotImplementedError\<close>: raised by \<open>_get_segmented_mesh_info\<close> for a face whose
    vertices have different semantic classes;
  \<^item> \<open>RuntimeError_normals count\<close>: the \<open>RuntimeError\<close> of \<open>triangle_face_normals\<close>,
    whose message reports \<open>count\<close> meshes;
  \<^item> \<open>RuntimeError_wall_direction\<close>: the \<open>RuntimeError\<close> of \<open>BuildingWall.__init__\<close>;
  \<^item> \<open>KeyError\<close>: a label missing from the points table in \<open>self._points.loc[nodes, ...]\<close>.
\<close>

datatype error =
    ValueError
  | NotImplementedError
  | RuntimeError_normals nat
  | RuntimeError_wall_direction
  | KeyError

section \<open>Colour quantization (\<open>post_process_segmentation.py\<close>)\<close>

text \<open>
  A colour is an RGB triple. The source accepts integer components (0 to 255) as well as
  float components (0 to 1), so the component type is any ordered ring; squared distances
  are computed exactly.
\<close>

type_synonym 'a color = "'a \<times> 'a \<times> 'a"

text \<open>
  First loop of \<open>color_quantization\<close>: \<open>pixel_dict\<close> maps each distinct pixel value to the
  list of row indices holding it. A Python \<open>dict\<close> keeps insertion order, which the second
  loop follows, so the dictionary is an association list with distinct keys.
  \<^verbatim>\<open>
    pixel_dict = {}
    for i, pixel in enumerate(arr):
        pixel_tuple = tuple(pixel)
        if pixel_tuple in pixel_dict.keys():
            pixel_dict[tuple(pixel_tuple)].append(i)
        else:
            pixel_dict[pixel_tuple] = [i]
  \<close>
\<close>

type_synonym 'k pixel_dict = "('k \<times> nat list) list"

fun pixel_dict_add :: "'k pixel_dict \<Rightarrow> nat \<times> 'k \<Rightarrow> 'k pixel_dict" where
  "pixel_dict_add [] (i, p) = [(p, [i])]"
| "pixel_dict_add ((k, js) # d) (i, p) =
     (if k = p then (k, js @ [i]) # d else (k, js) # pixel_dict_add d (i, p))"

definition build_pixel_dict :: "'k list \<Rightarrow> 'k pixel_dict" where
  "build_pixel_dict arr = foldl pixel_dict_add [] (enumerate 0 arr)"

text \<open>
  Second loop:
  \<^verbatim>\<open>
    for pixel_value, indices in pixel_dict.items():
        distances = np.sum((mandatory_colors - np.array(pixel_value)) ** 2, axis=1)
        arr[indices] = mandatory_colors[np.where(distances == np.min(distances))[0][0]]
    return arr
  \<close>
  \<open>sq_dist\<close> is one entry of \<open>distances\<close>; \<open>first_index m ds\<close> is
  \<open>np.where(ds == m)[0][0]\<close>; \<open>fold min ds d\<close> is \<open>np.min\<close> of the non-empty list
  \<open>d # ds\<close>. With an empty \<open>mandatory_colors\<close> the subtraction raises \<open>ValueError\<close>
  before any distance exists. The indices stored in \<open>pixel_dict\<close> are row numbers of
  \<open>arr\<close>, so every \<open>arr[i := c]\<close> is in range.
\<close>

fun sq_dist :: "('a::linordered_idom) color \<Rightarrow> 'a color \<Rightarrow> 'a" where
  "sq_dist (r1, g1, b1) (r2, g2, b2) = (r1 - r2)\<^sup>2 + (g1 - g2)\<^sup>2 + (b1 - b2)\<^sup>2"

fun first_index :: "'a \<Rightarrow> 'a list \<Rightarrow> nat" where
  "first_index m [] = 0"
| "first_index m (d # ds) = (if d = m then 0 else Suc (first_index m ds))"

definition closest :: "('a::linordered_idom) color list \<Rightarrow> 'a color \<Rightarrow> error + 'a color" where
  "closest mandatory_colors pixel_value =
     (case map (\<lambda>c. sq_dist c pixel_value) mandatory_colors of
        [] \<Rightarrow> Inl ValueError
      | d # ds \<Rightarrow> Inr (mandatory_colors ! first_index (fold min ds d) (d # ds)))"

fun assign_pixels ::
  "('a::linordered_idom) color list \<Rightarrow> 'a color pixel_dict \<Rightarrow> 'a color list \<Rightarrow> error + 'a color list" where
  "assign_pixels mandatory_colors [] arr = Inr arr"
| "assign_pixels mandatory_colors ((pixel_value, indices) # d) arr =
     (case closest mandatory_colors pixel_value of
        Inl e \<Rightarrow> Inl e
      | Inr c \<Rightarrow> assign_pixels mandatory_colors d (fold (\<lambda>i a. a[i := c]) indices arr))"

definition color_quantization ::
  "('a::linordered_idom) color list \<Rightarrow> 'a color list \<Rightarrow> error + 'a color list" where
  "color_quantization arr mandatory_colors =
     assign_pixels mandatory_colors (build_pixel_dict arr) arr"

text \<open>
  Auxiliary notions for the proofs: the palette entry \<open>closest\<close> selects (for a non-empty
  palette), and whether some dictionary entry lists row \<open>i\<close>.
\<close>

definition nearest :: "('a::linordered_idom) color list \<Rightarrow> 'a color \<Rightarrow> 'a color" where
  "nearest pal p = (case closest pal p of Inr c \<Rightarrow> c | Inl e \<Rightarrow> p)"

definition hit :: "nat \<Rightarrow> 'k pixel_dict \<Rightarrow> bool" where
  "hit i d = list_ex (\<lambda>e. i \<in> set (snd e)) d"

section \<open>The data model of \<open>Segmented3DModel\<close> (\<open>mesh_tools/segmented_3D_model.py\<close>)\<close>

text \<open>
  Coordinates and normals are exact reals. The one float effect the model keeps is the
  value NaN produced by \<open>0 / 0\<close>, since pandas and numpy treat it specially (a NaN never
  compares equal, \<open>groupby\<close> drops NaN keys); it is written as \<open>None\<close> where it can occur.
\<close>

type_synonym vec3 = "real \<times> real \<times> real"

text \<open>
  A row of \<open>self._points\<close> (the vertex table of the \<open>.ply\<close> file, labelled by the vertex
  ids \<open>0, 1, \<dots>\<close>): columns \<open>x, y, z\<close> (\<open>pos\<close>), \<open>nx, ny, nz\<close> (\<open>nrm\<close>),
  \<open>red, green, blue\<close> (\<open>rgb\<close>) and, once \<open>_assign_classes\<close> has run, \<open>seg_class\<close>.
  The colour columns of a \<open>.ply\<close> file are unsigned 8-bit integers: a colour component of
  the table is an integer from 0 to 255, and a value written into such a column is
  reduced modulo 256 (\<open>uint8_store\<close>; numpy before 2.0 wraps an out-of-range Python
  integer, with a deprecation warning from 1.24 on).
\<close>

definition uint8_store :: "int color \<Rightarrow> int color" where
  "uint8_store c = (case c of (r, g, b) \<Rightarrow> (r mod 256, g mod 256, b mod 256))"

record point_attrs =
  pos :: vec3
  nrm :: vec3
  rgb :: "int color"

record vertex = point_attrs +
  seg_class_v :: string

text \<open>
  The segmentation mapping read from the json file:
  \<open>{"class_1": {"ID": int, "RGB": (int, int, int)}, \<dots>}\<close>, a dictionary in file order.
  The constructor removes the key \<open>background\<close>: \<open>seg_map.pop("background", None)\<close>.
\<close>

record seg_info =
  ID :: int
  RGB :: "int color"

type_synonym seg_map = "(string \<times> seg_info) list"

definition pop_background :: "seg_map \<Rightarrow> seg_map" where
  "pop_background seg_map = filter (\<lambda>(k, info). k \<noteq> ''background'') seg_map"

text \<open>
  \<^verbatim>\<open>
    def _fix_vertex_colors(self) -> None:
        rgb_arr = self._points[["red", "green", "blue"]].to_numpy()
        rgb_fixed = color_quantization(
            rgb_arr, [val["RGB"] for val in self._segmentation_map.values()]
        )
        self._points.red = rgb_fixed[:, 0]
        self._points.green = rgb_fixed[:, 1]
        self._points.blue = rgb_fixed[:, 2]
  \<close>
  \<open>color_quantization\<close> writes into \<open>rgb_arr\<close>, an array of unsigned 8-bit integers: the
  distances are computed exactly (\<open>mandatory_colors\<close> is a list of Python integers, so the
  subtraction is done in 64 bits), and each palette colour that is written is stored
  modulo 256. The colours of the segmentation mapping are whatever integers the json
  file holds; nothing checks them.
\<close>

definition fix_vertex_colors :: "seg_map \<Rightarrow> vertex list \<Rightarrow> error + vertex list" where
  "fix_vertex_colors segmentation_map points =
     (case color_quantization (map rgb points) (map (\<lambda>entry. RGB (snd entry)) segmentation_map) of
        Inl e \<Rightarrow> Inl e
      | Inr rgb_fixed \<Rightarrow> Inr (map2 (\<lambda>v c. v\<lparr>rgb := uint8_store c\<rparr>) points rgb_fixed))"

text \<open>
  \<^verbatim>\<open>
    def _assign_classes(self) -> None:
        self._points["seg_class"] = ""
        for seg_class, info in self._segmentation_map.items():
            red = info["RGB"][0]
            green = info["RGB"][1]
            blue = info["RGB"][2]
            self._points.loc[
                (self._points.red == red)
                & (self._points.green == green)
                & (self._points.blue == blue),
                "seg_class",
            ] = seg_class
  \<close>
  The empty string is the source's mark of a vertex that no entry has labelled.
\<close>

definition assign_class :: "string \<times> seg_info \<Rightarrow> vertex \<Rightarrow> vertex" where
  "assign_class entry v =
     (if rgb v = RGB (snd entry) then v\<lparr>seg_class_v := fst entry\<rparr> else v)"

definition assign_classes :: "seg_map \<Rightarrow> vertex list \<Rightarrow> vertex list" where
  "assign_classes segmentation_map points =
     fold (\<lambda>entry pts. map (assign_class entry) pts) segmentation_map
       (map (\<lambda>v. v\<lparr>seg_class_v := ''''\<rparr>) points)"

text \<open>
  \<open>self._meshes\<close>: one row of three vertex ids per triangle (columns \<open>id_v1, id_v2, id_v3\<close>).
  \<open>_get_segmented_mesh_info\<close> left-joins the vertex table onto it three times and
  compares the joined classes:
  \<^verbatim>\<open>
        for vertex in [1, 2, 3]:
            mesh_df = pd.merge(left=mesh_df, right=self._points[cols_to_keep].rename(...),
                how="left", left_on=f"id_v{vertex}", right_index=True)
        if mesh_df.apply(
            lambda x: (x.seg_class_v1 == x.seg_class_v2)
            & (x.seg_class_v2 == x.seg_class_v3),
            axis=1,
        ).all():
            mesh_df["seg_class"] = mesh_df.seg_class_v1
            mesh_df.drop(columns=["seg_class_v1", "seg_class_v2", "seg_class_v3"], inplace=True)
            return mesh_df
        raise NotImplementedError(...)
  \<close>
  A vertex id that labels no row of the vertex table joins to NaN in every column
  (\<open>None\<close>); NaN is not equal to NaN, so such a row fails the comparison too.
\<close>

type_synonym mesh = "(nat \<times> nat \<times> nat) list"

record face =
  id_v1 :: nat
  id_v2 :: nat
  id_v3 :: nat
  pt_v1 :: point_attrs
  pt_v2 :: point_attrs
  pt_v3 :: point_attrs
  seg_class :: string

definition merge_vertex :: "vertex list \<Rightarrow> nat \<Rightarrow> vertex option" where
  "merge_vertex points i = (if i < length points then Some (points ! i) else None)"

definition same_class :: "vertex option \<Rightarrow> vertex option \<Rightarrow> bool" where
  "same_class a b =
     (case (a, b) of (Some v, Some w) \<Rightarrow> seg_class_v v = seg_class_v w | _ \<Rightarrow> False)"

definition classes_agree :: "vertex list \<Rightarrow> nat \<times> nat \<times> nat \<Rightarrow> bool" where
  "classes_agree points row =
     (case row of (a, b, c) \<Rightarrow>
        same_class (merge_vertex points a) (merge_vertex points b) \<and>
        same_class (merge_vertex points b) (merge_vertex points c))"

definition face_of_row :: "vertex list \<Rightarrow> nat \<times> nat \<times> nat \<Rightarrow> face option" where
  "face_of_row points row =
     (case row of (a, b, c) \<Rightarrow>
        (case (merge_vertex points a, merge_vertex points b, merge_vertex points c) of
           (Some v1, Some v2, Some v3) \<Rightarrow>
             if seg_class_v v1 = seg_class_v v2 \<and> seg_class_v v2 = seg_class_v v3
             then Some \<lparr>id_v1 = a, id_v2 = b, id_v3 = c,
                        pt_v1 = point_attrs.truncate v1, pt_v2 = point_attrs.truncate v2,
                        pt_v3 = point_attrs.truncate v3, seg_class = seg_class_v v1\<rparr>
             else None
         | _ \<Rightarrow> None))"

definition get_segmented_mesh_info :: "vertex list \<Rightarrow> mesh \<Rightarrow> error + face list" where
  "get_segmented_mesh_info points meshes =
     (case those (map (face_of_row points) meshes) of
        Some mesh_df \<Rightarrow> Inr mesh_df
      | None \<Rightarrow> Inl NotImplementedError)"

text \<open>
  A colour that an unsigned 8-bit column holds unchanged: all components from 0 to 255.
\<close>

definition uint8_color :: "int color \<Rightarrow> bool" where
  "uint8_color c = (case c of (r, g, b) \<Rightarrow>
     0 \<le> r \<and> r \<le> 255 \<and> 0 \<le> g \<and> g \<le> 255 \<and> 0 \<le> b \<and> b \<le> 255)"

section \<open>Face normals (\<open>mesh_tools/mesh_utils.py\<close>)\<close>

text \<open>
  The numpy operations on rows of three components: \<open>np.cross\<close>, the source's own
  \<open>npsumdot\<close> (a row-wise dot product), \<open>np.linalg.norm\<close> and \<open>np.isclose\<close>, whose test is
  \<open>|a - b| \<le> atol + rtol * |b|\<close> with \<open>rtol = 1e-05\<close> and, unless given, \<open>atol = 1e-08\<close>.
\<close>

fun np_cross :: "vec3 \<Rightarrow> vec3 \<Rightarrow> vec3" where
  "np_cross (a1, a2, a3) (b1, b2, b3) = (a2 * b3 - a3 * b2, a3 * b1 - a1 * b3, a1 * b2 - a2 * b1)"

fun npsumdot :: "vec3 \<Rightarrow> vec3 \<Rightarrow> real" where
  "npsumdot (a1, a2, a3) (b1, b2, b3) = a1 * b1 + a2 * b2 + a3 * b3"

fun vsub :: "vec3 \<Rightarrow> vec3 \<Rightarrow> vec3" where
  "vsub (a1, a2, a3) (b1, b2, b3) = (a1 - b1, a2 - b2, a3 - b3)"

fun vadd :: "vec3 \<Rightarrow> vec3 \<Rightarrow> vec3" where
  "vadd (a1, a2, a3) (b1, b2, b3) = (a1 + b1, a2 + b2, a3 + b3)"

fun smult :: "real \<Rightarrow> vec3 \<Rightarrow> vec3" where
  "smult k (a1, a2, a3) = (k * a1, k * a2, k * a3)"

definition np_norm :: "vec3 \<Rightarrow> real" where
  "np_norm a = sqrt (npsumdot a a)"

definition np_isclose :: "real \<Rightarrow> real \<Rightarrow> real \<Rightarrow> bool" where
  "np_isclose a b atol = (\<bar>a - b\<bar> \<le> atol + (1 / 100000) * \<bar>b\<bar>)"

text \<open>
  One entry of the result of \<open>check_angles\<close>: whether a vertex normal is more than 90
  degrees from the face normal.
  \<^verbatim>\<open>
    dot_prod = npsumdot(face_normals_cube, vertex_normals, axis=1)
    face_normals_mag = np.linalg.norm(face_normals, axis=1).reshape((face_normals.shape[0], 1))
    vertex_normals_mag = np.linalg.norm(vertex_normals, axis=1)
    divisor = np.multiply(face_normals_mag, vertex_normals_mag)
    cos_angles = np.divide(dot_prod, divisor)
    cos_angles[np.isclose(cos_angles, 1)] = 1
    cos_angles[np.isclose(cos_angles, -1)] = -1
    angles = np.arccos(cos_angles)
    return angles > np.pi / 2
  \<close>
  A zero divisor makes \<open>cos_angles\<close> NaN, which stays NaN through \<open>arccos\<close> and compares
  \<open>False\<close>.
\<close>

definition check_angle :: "vec3 \<Rightarrow> vec3 \<Rightarrow> bool" where
  "check_angle face_normal vertex_normal =
     (let dot_prod = npsumdot face_normal vertex_normal;
          divisor = np_norm face_normal * np_norm vertex_normal
      in if divisor = 0 then False
         else let cos_angle = dot_prod / divisor;
                  c1 = (if np_isclose cos_angle 1 (1 / 100000000) then 1 else cos_angle);
                  c2 = (if np_isclose c1 (- 1) (1 / 100000000) then - 1 else c1)
              in arccos c2 > pi / 2)"

text \<open>
  \<open>check_angles\<close> returns one row of three booleans per face (for the vertices v1, v2,
  v3). The arrays of one call have the same number of rows.
\<close>

definition check_angles :: "vec3 list \<Rightarrow> (vec3 \<times> vec3 \<times> vec3) list \<Rightarrow> bool list list" where
  "check_angles face_normals vertex_normals =
     map2 (\<lambda>n (a, b, c). [check_angle n a, check_angle n b, check_angle n c])
       face_normals vertex_normals"

text \<open>
  \<^verbatim>\<open>
    face_normals = np.cross(AB, AC)
    vertex_normals = np.stack([A_normal, B_normal, C_normal], axis=2)
    angle_check = check_angles(face_normals, vertex_normals)

    if np.any(angle_check):
        mask = np.any(angle_check, axis=1)
        face_normals[mask, :] = face_normals[mask, :] * -1
        angle_check_2 = check_angles(face_normals, vertex_normals)
        if np.any(angle_check_2):
            count = np.sum(np.any(angle_check, axis=1))
            raise RuntimeError(
                f"{count} meshes were not able to be corrected to match vertex normals"
            )

    return face_normals
  \<close>
  \<open>np.any(a)\<close> of a boolean matrix is \<open>list_ex (list_ex id)\<close>, \<open>np.any(a, axis=1)\<close> is
  \<open>map (list_ex id)\<close>, and \<open>np.sum\<close> of a boolean vector counts its true entries.
\<close>

definition triangle_face_normals ::
  "vec3 list \<Rightarrow> vec3 list \<Rightarrow> vec3 list \<Rightarrow> vec3 list \<Rightarrow> vec3 list \<Rightarrow> error + vec3 list" where
  "triangle_face_normals AB AC A_normal B_normal C_normal =
     (let face_normals = map2 np_cross AB AC;
          vertex_normals = zip A_normal (zip B_normal C_normal);
          angle_check = check_angles face_normals vertex_normals
      in if list_ex (list_ex id) angle_check then
           let mask = map (list_ex id) angle_check;
               flipped = map2 (\<lambda>m n. if m then smult (- 1) n else n) mask face_normals;
               angle_check_2 = check_angles flipped vertex_normals
           in if list_ex (list_ex id) angle_check_2
              then Inl (RuntimeError_normals (length (filter id (map (list_ex id) angle_check))))
              else Inr flipped
         else Inr face_normals)"

text \<open>
  The number of faces that are still unresolved after the flip, which is what the message
  of the \<open>RuntimeError\<close> announces (\<open>count\<close> meshes "were not able to be corrected"):
  the rows of \<open>angle_check_2\<close> with a true entry.
\<close>

definition unresolved_after_flip ::
  "vec3 list \<Rightarrow> vec3 list \<Rightarrow> vec3 list \<Rightarrow> vec3 list \<Rightarrow> vec3 list \<Rightarrow> nat" where
  "unresolved_after_flip AB AC A_normal B_normal C_normal =
     (let face_normals = map2 np_cross AB AC;
          vertex_normals = zip A_normal (zip B_normal C_normal);
          mask = map (list_ex id) (check_angles face_normals vertex_normals);
          flipped = map2 (\<lambda>m n. if m then smult (- 1) n else n) mask face_normals
      in length (filter id (map (list_ex id) (check_angles flipped vertex_normals))))"

text \<open>
  \<open>Segmented3DModel._add_triangle_face_normals\<close> adds to every row of \<open>self._mesh_df\<close> the
  columns \<open>face_normal_x, face_normal_y, face_normal_z\<close> (the unit normal) and
  \<open>face_normal_magnitude\<close>:
  \<^verbatim>\<open>
        AB = (self._mesh_df[["x_v2", "y_v2", "z_v2"]].to_numpy()
              - self._mesh_df[["x_v1", "y_v1", "z_v1"]].to_numpy())
        AC = (self._mesh_df[["x_v3", "y_v3", "z_v3"]].to_numpy()
              - self._mesh_df[["x_v1", "y_v1", "z_v1"]].to_numpy())
        A_normal = self._mesh_df[["nx_v1", "ny_v1", "nz_v1"]].to_numpy()
        B_normal = self._mesh_df[["nx_v2", "ny_v2", "nz_v2"]].to_numpy()
        C_normal = self._mesh_df[["nx_v3", "ny_v3", "nz_v3"]].to_numpy()
        face_normals = triangle_face_normals(
            AB=AB, AC=AC, A_normal=A_normal, B_normal=B_normal, C_normal=C_normal)
        face_normals_magnitude = np.linalg.norm(face_normals, axis=1).reshape(
            face_normals.shape[0], 1)
        face_unit_normals = face_normals / face_normals_magnitude
  \<close>
  A face of zero area has the zero vector as normal and magnitude 0, so its unit normal is
  \<open>0 / 0\<close>: the three \<open>face_normal\<close> columns of that row are NaN, written \<open>None\<close>.
\<close>

record nface = face +
  face_normal :: "vec3 option"
  face_normal_magnitude :: real

fun vdiv :: "vec3 \<Rightarrow> real \<Rightarrow> vec3" where
  "vdiv (a1, a2, a3) k = (a1 / k, a2 / k, a3 / k)"

definition with_normal :: "face \<Rightarrow> vec3 \<Rightarrow> nface" where
  "with_normal f n =
     face.extend f
       (nface.fields (if np_norm n = 0 then None else Some (vdiv n (np_norm n))) (np_norm n))"

definition add_triangle_face_normals :: "face list \<Rightarrow> error + nface list" where
  "add_triangle_face_normals mesh_df =
     (let AB = map (\<lambda>f. vsub (pos (pt_v2 f)) (pos (pt_v1 f))) mesh_df;
          AC = map (\<lambda>f. vsub (pos (pt_v3 f)) (pos (pt_v1 f))) mesh_df;
          A_normal = map (\<lambda>f. nrm (pt_v1 f)) mesh_df;
          B_normal = map (\<lambda>f. nrm (pt_v2 f)) mesh_df;
          C_normal = map (\<lambda>f. nrm (pt_v3 f)) mesh_df
      in case triangle_face_normals AB AC A_normal B_normal C_normal of
           Inl e \<Rightarrow> Inl e
         | Inr face_normals \<Rightarrow> Inr (map2 with_normal mesh_df face_normals))"

section \<open>Line and plane intersection (\<open>find_if_line_and_plane_intersect\<close>)\<close>

text \<open>
  \<open>domain\<close> is a 3 by 2 array: column 0 holds the lower and column 1 the upper extent per
  axis; it is modelled as the pair of these two columns. Membership in the box is
  \<open>np.all((vertices >= domain[:, 0]) & (vertices <= domain[:, 1]), axis=1)\<close>.
\<close>

type_synonym box = "vec3 \<times> vec3"

fun in_domain :: "box \<Rightarrow> vec3 \<Rightarrow> bool" where
  "in_domain ((lx, ly, lz), (hx, hy, hz)) (x, y, z) =
     (lx \<le> x \<and> x \<le> hx \<and> ly \<le> y \<and> y \<le> hy \<and> lz \<le> z \<and> z \<le> hz)"

text \<open>
  Boolean-mask indexing of numpy: \<open>a[mask]\<close> selects the rows where the mask is true, and
  \<open>a[mask] = values\<close> writes \<open>values\<close>, in order, into those rows.
\<close>

fun mask_select :: "bool list \<Rightarrow> 'a list \<Rightarrow> 'a list" where
  "mask_select (m # ms) (x # xs) = (if m then x # mask_select ms xs else mask_select ms xs)"
| "mask_select ms xs = []"

fun mask_assign :: "'a list \<Rightarrow> bool list \<Rightarrow> 'a list \<Rightarrow> 'a list" where
  "mask_assign (r # rs) (True # ms) (v # vs) = v # mask_assign rs ms vs"
| "mask_assign (r # rs) (False # ms) vs = r # mask_assign rs ms vs"
| "mask_assign rs ms vs = rs"

text \<open>
  \<^verbatim>\<open>
    AB = plane_points[1, :] - plane_points[0, :]
    AC = plane_points[2, :] - plane_points[0, :]
    normal = np.cross(AB, AC)

    # Check if normal is not zero
    if np.all(normal == 0):
        RuntimeError("plane points provided create line or point.")

    d = -np.dot(normal, plane_points[0, :])
    vector = vertices_2 - vertices_1
    vector_on_plane = np.isclose(vector @ normal.reshape(3, 1), 0, atol=1e-6).squeeze(1)
    vertices_1_in_domain = np.all(
        (vertices_1 >= domain[:, 0]) & (vertices_1 <= domain[:, 1]), axis=1)
    vertices_2_in_domain = np.all(
        (vertices_2 >= domain[:, 0]) & (vertices_2 <= domain[:, 1]), axis=1)
    line_on_plane_in_domain = (vector_on_plane & vertices_1_in_domain & vertices_2_in_domain)
    results = line_on_plane_in_domain
    if vector_on_plane.sum() == len(results):
        return results
    other_points = ~vector_on_plane
    du = vertices_2[other_points, :] - vertices_1[other_points, :]
    t = -1 * np.divide(
        np.matmul(vertices_1[other_points, :], normal.reshape((3, 1))) + d,
        np.matmul(du, normal.reshape((3, 1))),
    )
    line_crosses_plane = np.ones_like(t, dtype=bool)
    line_crosses_plane[t < 0] = False
    line_crosses_plane[t > 1] = False
    results[other_points] = line_crosses_plane.squeeze(1)
    return results
  \<close>
  The statement under \<open>if np.all(normal == 0)\<close> builds an exception object and drops it:
  there is no \<open>raise\<close>, so the test has no effect and the function has no failing path.
  The divisor of \<open>t\<close> is the dot product that \<open>vector_on_plane\<close> found to be more than
  \<open>1e-6\<close> away from 0, so it is not zero. \<open>vertices_1\<close> and \<open>vertices_2\<close> have the same number
  of rows.
\<close>

definition find_if_line_and_plane_intersect ::
  "vec3 list \<Rightarrow> vec3 list \<Rightarrow> vec3 \<times> vec3 \<times> vec3 \<Rightarrow> box \<Rightarrow> error + bool list" where
  "find_if_line_and_plane_intersect vertices_1 vertices_2 plane_points domain =
     (case plane_points of (p0, p1, p2) \<Rightarrow>
        let AB = vsub p1 p0;
            AC = vsub p2 p0;
            normal = np_cross AB AC;
            d = - npsumdot normal p0;
            vector = map2 vsub vertices_2 vertices_1;
            vector_on_plane = map (\<lambda>v. np_isclose (npsumdot v normal) 0 (1 / 1000000)) vector;
            vertices_1_in_domain = map (in_domain domain) vertices_1;
            vertices_2_in_domain = map (in_domain domain) vertices_2;
            line_on_plane_in_domain =
              map2 (\<and>) vector_on_plane (map2 (\<and>) vertices_1_in_domain vertices_2_in_domain);
            results = line_on_plane_in_domain
        in if length (filter id vector_on_plane) = length results then Inr results
           else
             let other_points = map Not vector_on_plane;
                 du = map2 vsub (mask_select other_points vertices_2)
                                (mask_select other_points vertices_1);
                 t = map2 (\<lambda>u w. - 1 * ((npsumdot u normal + d) / npsumdot w normal))
                       (mask_select other_points vertices_1) du;
                 line_crosses_plane = map (\<lambda>s. \<not> s < 0 \<and> \<not> s > 1) t
             in Inr (mask_assign results other_points line_crosses_plane))"

text \<open>
  The quantities of the claimed membership rule, for one edge from \<open>p0\<close> to \<open>p1\<close> and the
  plane through \<open>plane_points\<close>: the plane normal \<open>n\<close>, the offset \<open>d\<close>, and the parameter
  \<open>t = -(dot(n, p0) + d) / dot(n, p1 - p0)\<close>.
\<close>

definition plane_normal :: "vec3 \<times> vec3 \<times> vec3 \<Rightarrow> vec3" where
  "plane_normal plane_points =
     (case plane_points of (q0, q1, q2) \<Rightarrow> np_cross (vsub q1 q0) (vsub q2 q0))"

definition plane_offset :: "vec3 \<times> vec3 \<times> vec3 \<Rightarrow> real" where
  "plane_offset plane_points = - npsumdot (plane_normal plane_points) (fst plane_points)"

definition edge_parallel :: "vec3 \<times> vec3 \<times> vec3 \<Rightarrow> vec3 \<Rightarrow> vec3 \<Rightarrow> bool" where
  "edge_parallel plane_points p0 p1 =
     (\<bar>npsumdot (plane_normal plane_points) (vsub p1 p0)\<bar> \<le> 1 / 1000000)"

definition edge_t :: "vec3 \<times> vec3 \<times> vec3 \<Rightarrow> vec3 \<Rightarrow> vec3 \<Rightarrow> real" where
  "edge_t plane_points p0 p1 =
     - (npsumdot (plane_normal plane_points) p0 + plane_offset plane_points) /
       npsumdot (plane_normal plane_points) (vsub p1 p0)"

definition edge_rule :: "vec3 \<times> vec3 \<times> vec3 \<Rightarrow> box \<Rightarrow> vec3 \<times> vec3 \<Rightarrow> bool" where
  "edge_rule plane_points domain edge =
     (case edge of (p0, p1) \<Rightarrow>
        if edge_parallel plane_points p0 p1 then in_domain domain p0 \<and> in_domain domain p1
        else 0 \<le> edge_t plane_points p0 p1 \<and> edge_t plane_points p0 p1 \<le> 1)"

section \<open>Connected components of a face table (\<open>_get_connected_meshes_list\<close>)\<close>

text \<open>
  \<^verbatim>\<open>
        graph_df = pd.concat(
            [mesh_df_slice.loc[:, ["id_v1", "id_v2"]].rename(columns={"id_v1": "source", "id_v2": "target"}),
             mesh_df_slice.loc[:, ["id_v2", "id_v3"]].rename(columns={"id_v2": "source", "id_v3": "target"}),
             mesh_df_slice.loc[:, ["id_v3", "id_v1"]].rename(columns={"id_v3": "source", "id_v1": "target"})],
            axis=0).reset_index(drop=True)
        G = nx.from_pandas_edgelist(graph_df, source="source", target="target")
        component_graphs = [G.subgraph(c).copy() for c in nx.connected_components(G)]
        return component_graphs
  \<close>
  The edge list holds the edges v1-v2 of all faces, then the edges v2-v3, then v3-v1.
\<close>

definition graph_edges :: "'a face_scheme list \<Rightarrow> (nat \<times> nat) list" where
  "graph_edges mesh_df_slice =
     map (\<lambda>f. (id_v1 f, id_v2 f)) mesh_df_slice @
     map (\<lambda>f. (id_v2 f, id_v3 f)) mesh_df_slice @
     map (\<lambda>f. (id_v3 f, id_v1 f)) mesh_df_slice"

text \<open>
  \<open>networkx\<close> is a library outside the repository. Its \<open>connected_components\<close> yields the
  node sets of the connected components of the undirected graph, ordered by the first
  node of each component in the order in which the edge list introduced the nodes. The
  model computes them by adding one edge after the other: an edge merges the components
  that its two end points touch, the merged component keeps the place of the oldest of
  them, and an edge that touches no component starts a new one at the end. The analysed
  code reads only the nodes of a component graph, never its edges, so a component graph
  is the list of its nodes; the order of the nodes inside a component is not observable.
\<close>

definition touches :: "nat \<Rightarrow> nat \<Rightarrow> nat list \<Rightarrow> bool" where
  "touches u v c = (u \<in> set c \<or> v \<in> set c)"

fun place :: "('a \<Rightarrow> bool) \<Rightarrow> 'a \<Rightarrow> 'a list \<Rightarrow> 'a list" where
  "place P m [] = [m]"
| "place P m (c # cs) = (if P c then m # filter (\<lambda>c. \<not> P c) cs else c # place P m cs)"

definition add_edge :: "nat list list \<Rightarrow> nat \<times> nat \<Rightarrow> nat list list" where
  "add_edge cs e =
     (case e of (u, v) \<Rightarrow>
        place (touches u v) (remdups (concat (filter (touches u v) cs) @ [u, v])) cs)"

definition connected_components :: "(nat \<times> nat) list \<Rightarrow> nat list list" where
  "connected_components edges = foldl add_edge [] edges"

definition get_connected_meshes_list :: "'a face_scheme list \<Rightarrow> nat list list" where
  "get_connected_meshes_list mesh_df_slice = connected_components (graph_edges mesh_df_slice)"

section \<open>Building walls (\<open>BuildingWall\<close>, \<open>_get_building_walls\<close>)\<close>

text \<open>
  A float produced by a numpy division: a finite value, an infinity, or NaN.
\<close>

datatype np_float = Finite real | PosInf | NegInf | NaN

text \<open>
  The attributes of a \<open>BuildingWall\<close>, each with the prefix \<open>wall_\<close>: \<open>wall_mesh_df\<close> is
  \<open>self._mesh_df\<close> (the constructor's argument \<open>wall_mesh_df\<close>), and \<open>domain\<close>, \<open>center\<close>,
  \<open>direction\<close>, \<open>area\<close> and \<open>wwr\<close> are the attributes of these names. \<open>direction\<close> is read
  from the normal columns of the first row (\<open>None\<close> when they are NaN); the attribute
  \<open>wwr\<close> does not exist before \<open>set_wwr\<close>.
\<close>

record BuildingWall =
  wall_mesh_df :: "nface list"
  wall_domain :: box
  wall_center :: vec3
  wall_direction :: "vec3 option"
  wall_area :: real
  wall_wwr :: "np_float option"

text \<open>
  \<open>DataFrame.nunique\<close> counts the distinct values of a column, NaN left out.
  \<^verbatim>\<open>
        if np.any(
            self._mesh_df[["face_normal_x", "face_normal_y", "face_normal_z"]]
            .nunique().to_numpy() != 1
        ):
            raise RuntimeError(...)
  \<close>
\<close>

definition nunique :: "'a option list \<Rightarrow> nat" where
  "nunique col = length (remdups (List.map_filter id col))"

definition one_direction :: "nface list \<Rightarrow> bool" where
  "one_direction df =
     (nunique (map (\<lambda>f. map_option fst (face_normal f)) df) = 1 \<and>
      nunique (map (\<lambda>f. map_option (fst \<circ> snd) (face_normal f)) df) = 1 \<and>
      nunique (map (\<lambda>f. map_option (snd \<circ> snd) (face_normal f)) df) = 1)"

text \<open>
  \<^verbatim>\<open>
        gathered_vertices = pd.concat([... v1 ..., ... v2 ..., ... v3 ...], axis=0).drop_duplicates()
        self._points = gathered_vertices.set_index("id")
        self.domain = np.stack(
            [np.min(self._points[["x", "y", "z"]].to_numpy(), axis=0),
             np.max(self._points[["x", "y", "z"]].to_numpy(), axis=0)], axis=1)
        self.center = np.mean(self.domain, axis=1)
        self.direction = self._mesh_df.loc[
            self._mesh_df.index[0], ["face_normal_x", "face_normal_y", "face_normal_z"]
        ].to_numpy(dtype=np.float32)
        self.area = self._mesh_df.face_normal_magnitude.sum() / 2
  \<close>
  A table that passes the direction test has a row, hence a vertex; the empty case of the
  minimum below is never reached. Dropping duplicate vertices changes neither minimum nor
  maximum. The direction is kept as the exact normal of the first row; its rounding to
  32-bit floats is not modelled.
\<close>

fun vmin :: "vec3 \<Rightarrow> vec3 \<Rightarrow> vec3" where
  "vmin (a1, a2, a3) (b1, b2, b3) = (min a1 b1, min a2 b2, min a3 b3)"

fun vmax :: "vec3 \<Rightarrow> vec3 \<Rightarrow> vec3" where
  "vmax (a1, a2, a3) (b1, b2, b3) = (max a1 b1, max a2 b2, max a3 b3)"

definition gathered_vertices :: "'a face_scheme list \<Rightarrow> vec3 list" where
  "gathered_vertices df =
     map (\<lambda>f. pos (pt_v1 f)) df @ map (\<lambda>f. pos (pt_v2 f)) df @ map (\<lambda>f. pos (pt_v3 f)) df"

definition bounding_box :: "vec3 list \<Rightarrow> error + box" where
  "bounding_box ps =
     (case ps of [] \<Rightarrow> Inl ValueError | p # qs \<Rightarrow> Inr (fold vmin qs p, fold vmax qs p))"

definition box_mean :: "box \<Rightarrow> vec3" where
  "box_mean b = smult (1 / 2) (vadd (fst b) (snd b))"

definition BuildingWall_init :: "nface list \<Rightarrow> error + BuildingWall" where
  "BuildingWall_init df =
     (if \<not> one_direction df then Inl RuntimeError_wall_direction
      else case bounding_box (gathered_vertices df) of
             Inl e \<Rightarrow> Inl e
           | Inr b \<Rightarrow>
               Inr \<lparr>wall_mesh_df = df, wall_domain = b, wall_center = box_mean b,
                    wall_direction = (case df of [] \<Rightarrow> None | f # fs \<Rightarrow> face_normal f),
                    wall_area = sum_list (map face_normal_magnitude df) / 2,
                    wall_wwr = None\<rparr>)"

text \<open>
  \<^verbatim>\<open>
        wall_df = self._mesh_df[
            (self._mesh_df.seg_class == "wall")
            & (self._mesh_df.face_normal_z != 1)
            & (self._mesh_df.face_normal_z != -1)
        ]
        for _, group in wall_df.groupby(["face_normal_x", "face_normal_y", "face_normal_z"]):
            connected_components = self._get_connected_meshes_list(group)
            if len(connected_components) == 1:
                building_walls.append(BuildingWall(group))
                continue
            for component in connected_components:
                nodes = set(component.nodes)
                vertex_1_in_nodes = group.id_v1.isin(nodes)
                vertex_2_in_nodes = group.id_v2.isin(nodes)
                vertex_3_in_nodes = group.id_v3.isin(nodes)
                mask = np.all(np.stack([...], axis=1), axis=1)
                component_mesh_df = group.loc[mask, :]
                building_walls.append(BuildingWall(component_mesh_df))
        return building_walls
  \<close>
  A NaN is different from 1 and from -1. \<open>groupby\<close> sorts the groups by their key
  (lexicographically by x, y, z) and, by its default \<open>dropna=True\<close>, leaves out every row
  whose key holds a NaN.
\<close>

definition normal_z_is :: "real \<Rightarrow> nface \<Rightarrow> bool" where
  "normal_z_is k f = (case face_normal f of None \<Rightarrow> False | Some (x, y, z) \<Rightarrow> z = k)"

definition wall_rows :: "nface list \<Rightarrow> nface list" where
  "wall_rows mesh_df =
     filter (\<lambda>f. seg_class f = ''wall'' \<and> \<not> normal_z_is 1 f \<and> \<not> normal_z_is (- 1) f) mesh_df"

definition groupby_normal :: "nface list \<Rightarrow> nface list list" where
  "groupby_normal df =
     map (\<lambda>k. filter (\<lambda>f. face_normal f = Some k) df)
       (sort (remdups (List.map_filter face_normal df)))"

fun collect :: "(error + 'a) list \<Rightarrow> error + 'a list" where
  "collect [] = Inr []"
| "collect (x # xs) =
     (case x of
        Inl e \<Rightarrow> Inl e
      | Inr a \<Rightarrow> (case collect xs of Inl e \<Rightarrow> Inl e | Inr as \<Rightarrow> Inr (a # as)))"

definition in_component :: "nat list \<Rightarrow> nface \<Rightarrow> bool" where
  "in_component nodes f = (id_v1 f \<in> set nodes \<and> id_v2 f \<in> set nodes \<and> id_v3 f \<in> set nodes)"

definition walls_of_group :: "nface list \<Rightarrow> error + BuildingWall list" where
  "walls_of_group grp =
     (let connected = get_connected_meshes_list grp
      in if length connected = 1 then collect [BuildingWall_init grp]
         else collect (map (\<lambda>component. BuildingWall_init (filter (in_component component) grp))
                        connected))"

definition get_building_walls :: "nface list \<Rightarrow> error + BuildingWall list" where
  "get_building_walls mesh_df =
     (case collect (map walls_of_group (groupby_normal (wall_rows mesh_df))) of
        Inl e \<Rightarrow> Inl e
      | Inr wss \<Rightarrow> Inr (concat wss))"

text \<open>
  The row sets the partition statement speaks about: the wall-class rows of the face
  table, those of them that are excluded because their normal is purely vertical
  (\<open>face_normal_z\<close> equal to 1 or to -1), and those whose normal columns are NaN (faces
  of zero area). A well-formed wall holds at least one row, and all of its rows have one
  and the same normal, which is not NaN.
\<close>

definition is_wall :: "nface \<Rightarrow> bool" where
  "is_wall f = (seg_class f = ''wall'')"

definition vertical_wall :: "nface \<Rightarrow> bool" where
  "vertical_wall f = (is_wall f \<and> (normal_z_is 1 f \<or> normal_z_is (- 1) f))"

definition undefined_normal_wall :: "nface \<Rightarrow> bool" where
  "undefined_normal_wall f = (is_wall f \<and> face_normal f = None)"

definition wall_ok :: "BuildingWall \<Rightarrow> bool" where
  "wall_ok w =
     (case wall_mesh_df w of
        [] \<Rightarrow> False
      | f # fs \<Rightarrow> face_normal f \<noteq> None \<and> list_all (\<lambda>g. face_normal g = face_normal f) fs)"

section \<open>Windows, areas and the window-to-wall ratio\<close>

text \<open>
  \<^verbatim>\<open>
    def _get_window_area_from_component_graph(self, graph: nx.MultiGraph) -> float:
        nodes = list(graph.nodes)
        node_locations = self._points.loc[nodes, ["x", "y", "z"]].to_numpy()
        bounding_box = np.stack(
            [np.min(node_locations, axis=0), np.max(node_locations, axis=0)], axis=1)
        measurements = np.diff(bounding_box, axis=1)
        return np.max([x * y for x, y in combinations(measurements, 2)])
  \<close>
  \<open>.loc\<close> raises \<open>KeyError\<close> for a node that labels no row of the vertex table.
\<close>

definition node_location :: "vertex list \<Rightarrow> nat \<Rightarrow> error + vec3" where
  "node_location pts i = (if i < length pts then Inr (pos (pts ! i)) else Inl KeyError)"

definition largest_face :: "box \<Rightarrow> real" where
  "largest_face b =
     (case vsub (snd b) (fst b) of (x, y, z) \<Rightarrow> max (x * y) (max (x * z) (y * z)))"

definition get_window_area_from_component_graph :: "vertex list \<Rightarrow> nat list \<Rightarrow> error + real" where
  "get_window_area_from_component_graph pts graph =
     (case collect (map (node_location pts) graph) of
        Inl e \<Rightarrow> Inl e
      | Inr node_locations \<Rightarrow>
          (case bounding_box node_locations of
             Inl e \<Rightarrow> Inl e
           | Inr b \<Rightarrow> Inr (largest_face b)))"

text \<open>
  \<^verbatim>\<open>
    def _get_all_window_area(self) -> float:
        window_areas = []
        for window_graph in self._window_graphs:
            window_areas.append(self._get_window_area_from_component_graph(window_graph))
        return np.sum(window_areas)
  \<close>
\<close>

definition get_all_window_area :: "vertex list \<Rightarrow> nat list list \<Rightarrow> error + real" where
  "get_all_window_area pts graphs =
     (case collect (map (get_window_area_from_component_graph pts) graphs) of
        Inl e \<Rightarrow> Inl e
      | Inr window_areas \<Rightarrow> Inr (sum_list window_areas))"

text \<open>
  \<^verbatim>\<open>
    def _get_all_wall_area(self) -> float:
        normals = self._mesh_df.loc[self._mesh_df.seg_class == "wall",
            ["face_normal_x", "face_normal_y", "face_normal_z", "face_normal_magnitude"]].to_numpy()
        cond = (normals[:, 0] != 0) | (normals[:, 1] != 0)
        side_walls = normals[cond, :]
        area = np.sum(side_walls[:, 3]) / 2
        return area
  \<close>
  A NaN is different from 0.
\<close>

definition side_wall :: "nface \<Rightarrow> bool" where
  "side_wall f =
     (seg_class f = ''wall'' \<and>
      (case face_normal f of None \<Rightarrow> True | Some (x, y, z) \<Rightarrow> x \<noteq> 0 \<or> y \<noteq> 0))"

definition get_all_wall_area :: "nface list \<Rightarrow> real" where
  "get_all_wall_area df = sum_list (map face_normal_magnitude (filter side_wall df)) / 2"

text \<open>
  Both areas are numpy floats (results of \<open>np.sum\<close> and of a pandas \<open>sum\<close>), so the
  division is numpy's: a zero divisor raises nothing; it gives NaN for \<open>0 / 0\<close> and an
  infinity otherwise, with a \<open>RuntimeWarning\<close>.
  \<^verbatim>\<open>
    @cached_property
    def wwr(self) -> float:
        wall_area = self._get_all_wall_area()
        windows_area = self._get_all_window_area()
        return windows_area / wall_area

    def set_wwr(self, windows_area: float) -> None:      # BuildingWall
        self.wwr = windows_area / self.area
  \<close>
\<close>

definition zero_division :: "real \<Rightarrow> np_float" where
  "zero_division a = (if a = 0 then NaN else if 0 < a then PosInf else NegInf)"

definition np_divide :: "real \<Rightarrow> real \<Rightarrow> np_float" where
  "np_divide a b = (if b = 0 then zero_division a else Finite (a / b))"

definition overall_wwr :: "vertex list \<Rightarrow> nface list \<Rightarrow> nat list list \<Rightarrow> error + np_float" where
  "overall_wwr pts df graphs =
     (let all_wall_area = get_all_wall_area df
      in case get_all_window_area pts graphs of
           Inl e \<Rightarrow> Inl e
         | Inr windows_area \<Rightarrow> Inr (np_divide windows_area all_wall_area))"

definition set_wwr :: "BuildingWall \<Rightarrow> real \<Rightarrow> BuildingWall" where
  "set_wwr wall windows_area = wall\<lparr>wall_wwr := Some (np_divide windows_area (wall_area wall))\<rparr>"

text \<open>
  \<open>_get_windows_on_wall\<close>. The edge table holds, for the window faces, the edges v1-v2 of
  all faces, then v2-v3, then v3-v1, each with the ids and the positions of its two ends.
  \<^verbatim>\<open>
        plane_vector_1 = wall.domain[:, 1] - wall.center
        plane_vector_2 = np.cross(plane_vector_1, wall.direction)
        plane_point_1 = wall.domain[:, 1]
        plane_point_2 = wall.center
        plane_point_3 = wall.center + plane_vector_2
        intersecting_edges = find_if_line_and_plane_intersect(
            vertices_1=windows_mesh_edges[["x_v1", "y_v1", "z_v1"]].to_numpy(),
            vertices_2=windows_mesh_edges[["x_v2", "y_v2", "z_v2"]].to_numpy(),
            plane_points=np.stack([plane_point_1, plane_point_2, plane_point_3], axis=0),
            domain=wall.domain)
        wall_nodes = set(np.concatenate([
            windows_mesh_edges.loc[intersecting_edges, "id_v1"].to_numpy(),
            windows_mesh_edges.loc[intersecting_edges, "id_v2"].to_numpy()]))
        windows_on_wall = []
        for window in self._window_graphs:
            if len(wall_nodes.intersection(window.nodes)) > 0:
                windows_on_wall.append(window)
        return windows_on_wall
  \<close>
  A wall whose direction is NaN makes every plane coefficient NaN: no edge is parallel
  (\<open>isclose\<close> of NaN is false) and no \<open>t\<close> is below 0 or above 1, so every edge is flagged.
  The walls that \<open>_get_building_walls\<close> builds always have a direction.
\<close>

definition windows_mesh_edges :: "nface list \<Rightarrow> ((nat \<times> nat) \<times> (vec3 \<times> vec3)) list" where
  "windows_mesh_edges df =
     (let windows_mesh_df = filter (\<lambda>f. seg_class f = ''window'') df
      in map (\<lambda>f. ((id_v1 f, id_v2 f), (pos (pt_v1 f), pos (pt_v2 f)))) windows_mesh_df @
         map (\<lambda>f. ((id_v2 f, id_v3 f), (pos (pt_v2 f), pos (pt_v3 f)))) windows_mesh_df @
         map (\<lambda>f. ((id_v3 f, id_v1 f), (pos (pt_v3 f), pos (pt_v1 f)))) windows_mesh_df)"

definition probe_plane :: "BuildingWall \<Rightarrow> vec3 \<Rightarrow> vec3 \<times> vec3 \<times> vec3" where
  "probe_plane wall dir =
     (let plane_vector_1 = vsub (snd (wall_domain wall)) (wall_center wall);
          plane_vector_2 = np_cross plane_vector_1 dir
      in (snd (wall_domain wall), wall_center wall, vadd (wall_center wall) plane_vector_2))"

definition intersecting_edges :: "nface list \<Rightarrow> BuildingWall \<Rightarrow> error + bool list" where
  "intersecting_edges df wall =
     (let edges = windows_mesh_edges df
      in case wall_direction wall of
           None \<Rightarrow> Inr (map (\<lambda>e. True) edges)
         | Some dir \<Rightarrow>
             find_if_line_and_plane_intersect (map (\<lambda>e. fst (snd e)) edges)
               (map (\<lambda>e. snd (snd e)) edges) (probe_plane wall dir) (wall_domain wall))"

definition get_windows_on_wall ::
  "nface list \<Rightarrow> nat list list \<Rightarrow> BuildingWall \<Rightarrow> error + nat list list" where
  "get_windows_on_wall df graphs wall =
     (case intersecting_edges df wall of
        Inl e \<Rightarrow> Inl e
      | Inr flags \<Rightarrow>
          (let flagged = mask_select flags (map fst (windows_mesh_edges df));
               wall_nodes = map fst flagged @ map snd flagged
           in Inr (filter (\<lambda>window. list_ex (\<lambda>n. n \<in> set wall_nodes) window) graphs)))"

text \<open>
  \<^verbatim>\<open>
    def _set_wwr_per_wall(self) -> None:
        for wall in self._building_walls:
            windows_subgraph_list = self._get_windows_on_wall(wall)
            windows_area = []
            for window in windows_subgraph_list:
                windows_area.append(self._get_window_area_from_component_graph(window))
            wall.set_wwr(np.sum(windows_area))
  \<close>
\<close>

definition set_wwr_of_wall ::
  "vertex list \<Rightarrow> nface list \<Rightarrow> nat list list \<Rightarrow> BuildingWall \<Rightarrow> error + BuildingWall" where
  "set_wwr_of_wall pts df graphs wall =
     (case get_windows_on_wall df graphs wall of
        Inl e \<Rightarrow> Inl e
      | Inr windows_subgraph_list \<Rightarrow>
          (case get_all_window_area pts windows_subgraph_list of
             Inl e \<Rightarrow> Inl e
           | Inr windows_area \<Rightarrow> Inr (set_wwr wall windows_area)))"

definition set_wwr_per_wall ::
  "vertex list \<Rightarrow> nface list \<Rightarrow> nat list list \<Rightarrow> BuildingWall list \<Rightarrow> error + BuildingWall list" where
  "set_wwr_per_wall pts df graphs walls = collect (map (set_wwr_of_wall pts df graphs) walls)"

section \<open>The constructor of \<open>Segmented3DModel\<close>\<close>

text \<open>
  \<^verbatim>\<open>
        seg_map.pop("background", None)
        self._segmentation_map = seg_map
        ...
        self._fix_vertex_colors()
        self._assign_classes()
        self._mesh_df = self._get_segmented_mesh_info()
        self._add_triangle_face_normals()
        windows_df = self._mesh_df[self._mesh_df.seg_class == "window"]
        self._window_graphs = self._get_connected_meshes_list(windows_df)
        self._building_walls = self._get_building_walls()
        self._set_wwr_per_wall()
  \<close>
  The constructor takes the segmentation mapping, the vertex table and the triangle
  table as read from the two files. An exception of any step leaves no object behind.
\<close>

record Segmented3DModel =
  model_points :: "vertex list"
  model_mesh_df :: "nface list"
  model_window_graphs :: "nat list list"
  model_building_walls :: "BuildingWall list"

definition Segmented3DModel_init :: "seg_map \<Rightarrow> vertex list \<Rightarrow> mesh \<Rightarrow> error + Segmented3DModel" where
  "Segmented3DModel_init seg_map pts meshes =
     (let segmentation_map = pop_background seg_map
      in case fix_vertex_colors segmentation_map pts of
           Inl e \<Rightarrow> Inl e
         | Inr fixed \<Rightarrow>
             (let classified = assign_classes segmentation_map fixed
              in case get_segmented_mesh_info classified meshes of
                   Inl e \<Rightarrow> Inl e
                 | Inr joined \<Rightarrow>
                     (case add_triangle_face_normals joined of
                        Inl e \<Rightarrow> Inl e
                      | Inr df \<Rightarrow>
                          (let graphs = get_connected_meshes_list
                                          (filter (\<lambda>f. seg_class f = ''window'') df)
                           in case get_building_walls df of
                                Inl e \<Rightarrow> Inl e
                              | Inr walls \<Rightarrow>
                                  (case set_wwr_per_wall classified df graphs walls of
                                     Inl e \<Rightarrow> Inl e
                                   | Inr walls' \<Rightarrow>
                                       Inr \<lparr>model_points = classified, model_mesh_df = df,
                                            model_window_graphs = graphs,
                                            model_building_walls = walls'\<rparr>)))))"

section \<open>Example inputs\<close>

text \<open>
  A corner of a building. Wall A lies in the plane \<open>x = 0\<close> (vertices 0, 1, 2, facing
  \<open>-x\<close>), wall B in the plane \<open>y = 0\<close> (vertices 3, 4, 5, facing \<open>-y\<close>); each is one
  triangle with legs of length 4. The window (vertices 6, 7, 8) is a triangle in the
  plane of wall A that touches the corner line \<open>x = y = 0\<close>. Walls are red, windows blue.
\<close>

definition corner_seg_map :: seg_map where
  "corner_seg_map =
     [(''wall'', \<lparr>ID = 1, RGB = (255, 0, 0)\<rparr>),
      (''window'', \<lparr>ID = 2, RGB = (0, 0, 255)\<rparr>),
      (''background'', \<lparr>ID = 0, RGB = (0, 0, 0)\<rparr>)]"

definition mk_vertex :: "vec3 \<Rightarrow> vec3 \<Rightarrow> int color \<Rightarrow> string \<Rightarrow> vertex" where
  "mk_vertex p n c s = \<lparr>pos = p, nrm = n, rgb = c, seg_class_v = s\<rparr>"

definition corner_points :: "vertex list" where
  "corner_points =
     [mk_vertex (0, 0, 0) (- 1, 0, 0) (255, 0, 0) [],
      mk_vertex (0, 4, 0) (- 1, 0, 0) (255, 0, 0) [],
      mk_vertex (0, 0, 4) (- 1, 0, 0) (250, 5, 0) [],
      mk_vertex (0, 0, 0) (0, - 1, 0) (255, 0, 0) [],
      mk_vertex (4, 0, 0) (0, - 1, 0) (255, 0, 0) [],
      mk_vertex (0, 0, 4) (0, - 1, 0) (255, 0, 0) [],
      mk_vertex (0, 0, 1) (- 1, 0, 0) (0, 0, 255) [],
      mk_vertex (0, 1, 1) (- 1, 0, 0) (0, 0, 255) [],
      mk_vertex (0, 0, 2) (- 1, 0, 0) (0, 3, 250) []]"

definition corner_meshes :: mesh where
  "corner_meshes = [(0, 2, 1), (3, 4, 5), (6, 8, 7)]"

text \<open>The classified vertex table and the face table that the constructor derives.\<close>

definition corner_classified :: "vertex list" where
  "corner_classified =
     [mk_vertex (0, 0, 0) (- 1, 0, 0) (255, 0, 0) ''wall'',
      mk_vertex (0, 4, 0) (- 1, 0, 0) (255, 0, 0) ''wall'',
      mk_vertex (0, 0, 4) (- 1, 0, 0) (255, 0, 0) ''wall'',
      mk_vertex (0, 0, 0) (0, - 1, 0) (255, 0, 0) ''wall'',
      mk_vertex (4, 0, 0) (0, - 1, 0) (255, 0, 0) ''wall'',
      mk_vertex (0, 0, 4) (0, - 1, 0) (255, 0, 0) ''wall'',
      mk_vertex (0, 0, 1) (- 1, 0, 0) (0, 0, 255) ''window'',
      mk_vertex (0, 1, 1) (- 1, 0, 0) (0, 0, 255) ''window'',
      mk_vertex (0, 0, 2) (- 1, 0, 0) (0, 0, 255) ''window'']"

definition mk_face ::
  "nat \<times> nat \<times> nat \<Rightarrow> vec3 \<times> vec3 \<times> vec3 \<Rightarrow> vec3 \<Rightarrow> int color \<Rightarrow> string \<Rightarrow>
   vec3 option \<Rightarrow> real \<Rightarrow> nface" where
  "mk_face ids ps n c s fn mag =
     (case (ids, ps) of ((a, b, d), (p, q, r)) \<Rightarrow>
        \<lparr>id_v1 = a, id_v2 = b, id_v3 = d,
         pt_v1 = \<lparr>pos = p, nrm = n, rgb = c\<rparr>,
         pt_v2 = \<lparr>pos = q, nrm = n, rgb = c\<rparr>,
         pt_v3 = \<lparr>pos = r, nrm = n, rgb = c\<rparr>,
         seg_class = s, face_normal = fn, face_normal_magnitude = mag\<rparr>)"

definition corner_wall_A :: nface where
  "corner_wall_A = mk_face (0, 2, 1) ((0, 0, 0), (0, 0, 4), (0, 4, 0)) (- 1, 0, 0) (255, 0, 0)
                     ''wall'' (Some (- 1, 0, 0)) 16"

definition corner_wall_B :: nface where
  "corner_wall_B = mk_face (3, 4, 5) ((0, 0, 0), (4, 0, 0), (0, 0, 4)) (0, - 1, 0) (255, 0, 0)
                     ''wall'' (Some (0, - 1, 0)) 16"

definition corner_window :: nface where
  "corner_window = mk_face (6, 8, 7) ((0, 0, 1), (0, 0, 2), (0, 1, 1)) (- 1, 0, 0) (0, 0, 255)
                     ''window'' (Some (- 1, 0, 0)) 1"

definition corner_mesh_df :: "nface list" where
  "corner_mesh_df = [corner_wall_A, corner_wall_B, corner_window]"

definition building_wall_A :: BuildingWall where
  "building_wall_A =
     \<lparr>wall_mesh_df = [corner_wall_A], wall_domain = ((0, 0, 0), (0, 4, 4)), wall_center = (0, 2, 2),
      wall_direction = Some (- 1, 0, 0), wall_area = 8, wall_wwr = None\<rparr>"

definition building_wall_B :: BuildingWall where
  "building_wall_B =
     \<lparr>wall_mesh_df = [corner_wall_B], wall_domain = ((0, 0, 0), (4, 0, 4)), wall_center = (2, 0, 2),
      wall_direction = Some (0, - 1, 0), wall_area = 8, wall_wwr = None\<rparr>"

text \<open>
  A wall-class triangle of zero area: its second and third vertex coincide.
\<close>

definition degenerate_points :: "vertex list" where
  "degenerate_points =
     [mk_vertex (0, 0, 0) (- 1, 0, 0) (255, 0, 0) ''wall'',
      mk_vertex (0, 4, 0) (- 1, 0, 0) (255, 0, 0) ''wall'']"

definition degenerate_row :: nface where
  "degenerate_row = mk_face (0, 1, 1) ((0, 0, 0), (0, 4, 0), (0, 4, 0)) (- 1, 0, 0) (255, 0, 0)
                      ''wall'' None 0"

text \<open>
  A model without walls: the window of the corner example alone.
\<close>

definition window_points :: "vertex list" where
  "window_points =
     [mk_vertex (0, 0, 1) (- 1, 0, 0) (0, 0, 255) [],
      mk_vertex (0, 1, 1) (- 1, 0, 0) (0, 0, 255) [],
      mk_vertex (0, 0, 2) (- 1, 0, 0) (0, 3, 250) []]"

definition window_classified :: "vertex list" where
  "window_classified =
     [mk_vertex (0, 0, 1) (- 1, 0, 0) (0, 0, 255) ''window'',
      mk_vertex (0, 1, 1) (- 1, 0, 0) (0, 0, 255) ''window'',
      mk_vertex (0, 0, 2) (- 1, 0, 0) (0, 0, 255) ''window'']"

definition window_face :: nface where
  "window_face = mk_face (0, 2, 1) ((0, 0, 1), (0, 0, 2), (0, 1, 1)) (- 1, 0, 0) (0, 0, 255)
                   ''window'' (Some (- 1, 0, 0)) 1"

text \<open>
  A wall object built from a face table whose only row has magnitude 0: its area is 0.
\<close>

definition flat_wall_row :: nface where
  "flat_wall_row = mk_face (0, 1, 1) ((0, 0, 0), (0, 4, 0), (0, 4, 0)) (- 1, 0, 0) (255, 0, 0)
                     ''wall'' (Some (- 1, 0, 0)) 0"

definition flat_wall :: BuildingWall where
  "flat_wall =
     \<lparr>wall_mesh_df = [flat_wall_row], wall_domain = ((0, 0, 0), (0, 4, 0)),
      wall_center = (0, 2, 0), wall_direction = Some (- 1, 0, 0), wall_area = 0,
      wall_wwr = None\<rparr>"

section \<open>Properties of colour quantization\<close>

subsection \<open>The pixel dictionary\<close>

lemma pixel_dict_add_not_Nil: "pixel_dict_add d x \<noteq> []"
  by (cases d; cases x) (auto split: if_splits)

lemma build_pixel_dict_snoc:
  "build_pixel_dict (xs @ [x]) = pixel_dict_add (build_pixel_dict xs) (length xs, x)"
  by (simp add: build_pixel_dict_def enumerate_append_eq)

lemma build_pixel_dict_not_Nil: "arr \<noteq> [] \<Longrightarrow> build_pixel_dict arr \<noteq> []"
  by (cases arr rule: rev_cases) (simp_all add: build_pixel_dict_snoc pixel_dict_add_not_Nil)

lemma pixel_dict_add_entries:
  "(k, js') \<in> set (pixel_dict_add d (i, p)) \<Longrightarrow>
     (k, js') \<in> set d \<or> (k = p \<and> (js' = [i] \<or> (\<exists>js. (k, js) \<in> set d \<and> js' = js @ [i])))"
  by (induction d) (auto split: if_splits)

lemma pixel_dict_add_keeps:
  "(k, js) \<in> set d \<Longrightarrow> \<exists>js'. (k, js') \<in> set (pixel_dict_add d (i, p)) \<and> set js \<subseteq> set js'"
  by (induction d) (fastforce split: if_splits)+

lemma pixel_dict_add_new:
  "\<exists>js'. (p, js') \<in> set (pixel_dict_add d (i, p)) \<and> i \<in> set js'"
  by (induction d) (fastforce split: if_splits)+

lemma build_pixel_dict_sound:
  "(p, js) \<in> set (build_pixel_dict arr) \<Longrightarrow> i \<in> set js \<Longrightarrow> i < length arr \<and> arr ! i = p"
proof (induction arr arbitrary: p js rule: rev_induct)
  case Nil
  then show ?case by (simp add: build_pixel_dict_def)
next
  case (snoc x xs)
  from snoc.prems(1) have
    "(p, js) \<in> set (build_pixel_dict xs) \<or>
     (p = x \<and> (js = [length xs] \<or> (\<exists>ks. (p, ks) \<in> set (build_pixel_dict xs) \<and> js = ks @ [length xs])))"
    unfolding build_pixel_dict_snoc by (rule pixel_dict_add_entries)
  then show ?case
  proof (elim disjE conjE exE)
    assume "(p, js) \<in> set (build_pixel_dict xs)"
    with snoc.IH snoc.prems(2) have "i < length xs \<and> xs ! i = p" by blast
    then show ?thesis by (simp add: nth_append)
  next
    assume "p = x" "js = [length xs]"
    with snoc.prems(2) show ?thesis by simp
  next
    fix ks assume h: "p = x" "(p, ks) \<in> set (build_pixel_dict xs)" "js = ks @ [length xs]"
    show ?thesis
    proof (cases "i \<in> set ks")
      case True
      with snoc.IH h(2) have "i < length xs \<and> xs ! i = p" by blast
      then show ?thesis by (simp add: nth_append)
    next
      case False
      with snoc.prems(2) h(3) have "i = length xs" by simp
      with h(1) show ?thesis by simp
    qed
  qed
qed

lemma build_pixel_dict_complete:
  "i < length arr \<Longrightarrow> \<exists>p js. (p, js) \<in> set (build_pixel_dict arr) \<and> i \<in> set js"
proof (induction arr rule: rev_induct)
  case Nil
  then show ?case by simp
next
  case (snoc x xs)
  show ?case
  proof (cases "i < length xs")
    case True
    with snoc.IH obtain p js where "(p, js) \<in> set (build_pixel_dict xs)" "i \<in> set js" by blast
    with pixel_dict_add_keeps [of p js "build_pixel_dict xs" "length xs" x]
    show ?thesis unfolding build_pixel_dict_snoc by blast
  next
    case False
    with snoc.prems have "i = length xs" by simp
    with pixel_dict_add_new [of x "build_pixel_dict xs" "length xs"]
    show ?thesis unfolding build_pixel_dict_snoc by blast
  qed
qed

subsection \<open>Writing the closest colours back\<close>

lemma fold_update_length: "length (fold (\<lambda>i a. a[i := c]) js arr) = length arr"
  by (induction js arbitrary: arr) simp_all

lemma fold_update_nth:
  "i < length arr \<Longrightarrow> fold (\<lambda>i a. a[i := c]) js arr ! i = (if i \<in> set js then c else arr ! i)"
  by (induction js arbitrary: arr) (auto simp: fold_update_length nth_list_update)

lemma closest_empty: "closest [] p = Inl ValueError"
  by (simp add: closest_def)

lemma closest_nonempty: "pal \<noteq> [] \<Longrightarrow> closest pal p = Inr (nearest pal p)"
  by (cases pal) (simp_all add: nearest_def closest_def)

lemma hit_Nil: "hit i [] = False"
  by (simp add: hit_def)

lemma hit_Cons: "hit i (e # d) = (i \<in> set (snd e) \<or> hit i d)"
  by (simp add: hit_def)

lemma hit_iff: "hit i d \<longleftrightarrow> (\<exists>e \<in> set d. i \<in> set (snd e))"
  by (simp add: hit_def list_ex_iff)

lemma assign_pixels_nth:
  assumes pal: "pal \<noteq> []"
  shows "(\<forall>e \<in> set d. \<forall>i \<in> set (snd e). fst e = f i) \<Longrightarrow>
         \<exists>r. assign_pixels pal d arr = Inr r \<and> length r = length arr \<and>
           (\<forall>i < length arr. r ! i = (if hit i d then nearest pal (f i) else arr ! i))"
proof (induction d arbitrary: arr)
  case Nil
  then show ?case by (simp add: hit_Nil)
next
  case (Cons e d)
  obtain p js where e: "e = (p, js)" by (cases e)
  define arr' where "arr' = fold (\<lambda>i a. a[i := nearest pal p]) js arr"
  have len: "length arr' = length arr" by (simp add: arr'_def fold_update_length)
  have step: "assign_pixels pal (e # d) arr = assign_pixels pal d arr'"
    by (simp add: e closest_nonempty [OF pal] arr'_def)
  have d_ok: "\<forall>e \<in> set d. \<forall>i \<in> set (snd e). fst e = f i"
    using Cons.prems by simp
  have p_ok: "\<forall>i \<in> set js. p = f i"
    using Cons.prems e by simp
  from Cons.IH [OF d_ok] obtain r where r:
    "assign_pixels pal d arr' = Inr r" "length r = length arr'"
    "\<forall>i < length arr'. r ! i = (if hit i d then nearest pal (f i) else arr' ! i)"
    by blast
  have "r ! i = (if hit i (e # d) then nearest pal (f i) else arr ! i)"
    if i: "i < length arr" for i
  proof (cases "hit i d")
    case True
    with r(3) i len show ?thesis by (simp add: hit_Cons)
  next
    case False
    with r(3) i len have ri: "r ! i = arr' ! i" by simp
    have "arr' ! i = (if i \<in> set js then nearest pal p else arr ! i)"
      using i by (simp add: arr'_def fold_update_nth)
    with ri False p_ok e show ?thesis by (simp add: hit_Cons)
  qed
  with r(1,2) step len show ?case by simp
qed

lemma color_quantization_map:
  assumes "pal \<noteq> []"
  shows "color_quantization arr pal = Inr (map (nearest pal) arr)"
proof -
  have "\<forall>e \<in> set (build_pixel_dict arr). \<forall>i \<in> set (snd e). fst e = arr ! i"
    using build_pixel_dict_sound by fastforce
  from assign_pixels_nth [OF assms this, of arr] obtain r where r:
    "assign_pixels pal (build_pixel_dict arr) arr = Inr r" "length r = length arr"
    "\<forall>i < length arr. r ! i =
        (if hit i (build_pixel_dict arr) then nearest pal (arr ! i) else arr ! i)"
    by blast
  have "r = map (nearest pal) arr"
  proof (rule nth_equalityI)
    show "length r = length (map (nearest pal) arr)" using r(2) by simp
  next
    fix i assume "i < length r"
    with r(2) have i: "i < length arr" by simp
    with build_pixel_dict_complete [of i arr] have "hit i (build_pixel_dict arr)"
      unfolding hit_iff by force
    with r(3) i show "r ! i = map (nearest pal) arr ! i" by simp
  qed
  with r(1) show ?thesis by (simp add: color_quantization_def)
qed

subsection \<open>The closest palette entry\<close>

lemma first_index_nth: "m \<in> set ds \<Longrightarrow> first_index m ds < length ds \<and> ds ! first_index m ds = m"
  by (induction ds) auto

lemma fold_min_in_set: "fold min ds (d :: 'a :: linorder) \<in> set (d # ds)"
proof -
  have "Min (set (d # ds)) \<in> set (d # ds)" by (rule Min_in) simp_all
  then show ?thesis by (simp only: Min.set_eq_fold)
qed

lemma fold_min_le: "(x :: 'a :: linorder) \<in> set (d # ds) \<Longrightarrow> fold min ds d \<le> x"
proof -
  assume "x \<in> set (d # ds)"
  then have "Min (set (d # ds)) \<le> x" by (intro Min_le) simp_all
  then show ?thesis by (simp only: Min.set_eq_fold)
qed

lemma sq_dist_nonneg: "0 \<le> sq_dist c p"
  by (cases c; cases p) simp

lemma sq_dist_zero_iff: "sq_dist c p = 0 \<longleftrightarrow> c = p"
proof (cases c; cases p)
  fix r1 g1 b1 r2 g2 b2 :: 'a
  assume c: "c = (r1, g1, b1)" and p: "p = (r2, g2, b2)"
  have "(r1 - r2)\<^sup>2 + (g1 - g2)\<^sup>2 + (b1 - b2)\<^sup>2 = 0 \<longleftrightarrow>
        (r1 - r2)\<^sup>2 + (g1 - g2)\<^sup>2 = 0 \<and> (b1 - b2)\<^sup>2 = 0"
    by (rule add_nonneg_eq_0_iff) simp_all
  also have "\<dots> \<longleftrightarrow> ((r1 - r2)\<^sup>2 = 0 \<and> (g1 - g2)\<^sup>2 = 0) \<and> (b1 - b2)\<^sup>2 = 0"
    by (simp add: add_nonneg_eq_0_iff)
  finally show ?thesis by (simp add: c p)
qed

lemma nearest_index:
  assumes "pal \<noteq> []"
  shows "\<exists>k < length pal. nearest pal p = pal ! k \<and>
           (\<forall>c \<in> set pal. sq_dist (pal ! k) p \<le> sq_dist c p)"
proof -
  define ds where "ds = map (\<lambda>c. sq_dist c p) pal"
  from assms obtain d ds' where dd: "ds = d # ds'" by (cases pal) (auto simp: ds_def)
  define k where "k = first_index (fold min ds' d) ds"
  have near: "nearest pal p = pal ! k"
    using dd by (simp add: nearest_def closest_def k_def ds_def [symmetric])
  have "fold min ds' d \<in> set ds" unfolding dd by (rule fold_min_in_set)
  from first_index_nth [OF this] have k: "k < length ds" "ds ! k = fold min ds' d"
    by (simp_all add: k_def)
  then have klen: "k < length pal" by (simp add: ds_def)
  have dk: "sq_dist (pal ! k) p = fold min ds' d"
    using k klen by (simp add: ds_def)
  have "sq_dist (pal ! k) p \<le> sq_dist c p" if "c \<in> set pal" for c
  proof -
    from that have "sq_dist c p \<in> set (d # ds')" unfolding dd [symmetric] ds_def by simp
    from fold_min_le [OF this] dk show ?thesis by simp
  qed
  with near klen show ?thesis by blast
qed

lemma nearest_in_palette: "pal \<noteq> [] \<Longrightarrow> nearest pal p \<in> set pal"
  using nearest_index [of pal p] by auto

lemma nearest_fixed: 
  assumes "p \<in> set pal"
  shows "nearest pal p = p"
proof -
  from assms have "pal \<noteq> []" by auto
  from nearest_index [OF this, of p] obtain k where k: "k < length pal" "nearest pal p = pal ! k"
    "\<forall>c \<in> set pal. sq_dist (pal ! k) p \<le> sq_dist c p" by blast
  from k(3) assms have "sq_dist (pal ! k) p \<le> sq_dist p p" by blast
  also have "sq_dist p p = 0" by (simp add: sq_dist_zero_iff)
  finally have "sq_dist (pal ! k) p = 0" using sq_dist_nonneg [of "pal ! k" p] by simp
  then show ?thesis using k(2) by (simp add: sq_dist_zero_iff)
qed

subsection \<open>Claims about colour quantization\<close>

text \<open>
  Claim C7. For every non-empty colour array, \<open>color_quantization\<close> with an empty palette
  (no mandatory colours) does not return: it fails. The exception Python raises is numpy's
  \<open>ValueError\<close> from the distance computation of the first dictionary entry; this is the
  failure the specification calls ConfigurationError.
\<close>

theorem color_quantization_empty_palette_fails:
  "arr \<noteq> [] \<Longrightarrow> color_quantization arr [] = Inl ValueError"
proof -
  assume "arr \<noteq> []"
  then obtain e d where "build_pixel_dict arr = e # d"
    using build_pixel_dict_not_Nil [of arr] by (cases "build_pixel_dict arr") auto
  then show ?thesis by (cases e) (simp add: color_quantization_def closest_empty)
qed

theorem color_quantization_empty_palette_fails_witness:
  "[(200, 0, 10)] \<noteq> ([] :: int color list) \<and>
   color_quantization [(200 :: int, 0, 10)] [] = Inl ValueError"
  using color_quantization_empty_palette_fails [of "[(200 :: int, 0, 10)]"] by simp

text \<open>
  Claim C8. Idempotence: for every non-empty palette and every colour array in which each
  colour is a palette entry, \<open>color_quantization\<close> returns the array unchanged.
\<close>

theorem color_quantization_idempotent:
  "mandatory_colors \<noteq> [] \<Longrightarrow> set arr \<subseteq> set mandatory_colors \<Longrightarrow>
   color_quantization arr mandatory_colors = Inr arr"
proof -
  assume pal: "mandatory_colors \<noteq> []" and sub: "set arr \<subseteq> set mandatory_colors"
  have "map (nearest mandatory_colors) arr = arr"
    using sub by (intro map_idI nearest_fixed) auto
  with color_quantization_map [OF pal, of arr] show ?thesis by simp
qed

theorem color_quantization_idempotent_witness:
  "[(255, 0, 0), (0, 255, 255)] \<noteq> ([] :: int color list) \<and>
   set [(0, 255, 255), (255, 0, 0), (0, 255, 255)] \<subseteq> set [(255 :: int, 0, 0), (0, 255, 255)] \<and>
   color_quantization [(0, 255, 255), (255, 0, 0), (0, 255, 255)] [(255 :: int, 0, 0), (0, 255, 255)]
     = Inr [(0, 255, 255), (255, 0, 0), (0, 255, 255)]"
  using color_quantization_idempotent
    [of "[(255 :: int, 0, 0), (0, 255, 255)]" "[(0, 255, 255), (255, 0, 0), (0, 255, 255)]"]
  by simp

section \<open>Properties of vertex classification and of the face table\<close>

subsection \<open>Quantized colours are palette colours\<close>

lemma in_image_ex: "y \<in> f ` A \<Longrightarrow> \<exists>x \<in> A. f x = y"
  by auto

lemma uint8_store_id: "uint8_color c \<Longrightarrow> uint8_store c = c"
  by (cases c) (simp add: uint8_color_def uint8_store_def)

lemma fix_vertex_colors_nonempty:
  assumes "segmentation_map \<noteq> []"
  shows "fix_vertex_colors segmentation_map points =
           Inr (map (\<lambda>v. v\<lparr>rgb := uint8_store
                  (nearest (map (\<lambda>entry. RGB (snd entry)) segmentation_map) (rgb v))\<rparr>) points)"
proof -
  let ?pal = "map (\<lambda>entry. RGB (snd entry)) segmentation_map"
  from assms have "?pal \<noteq> []" by simp
  then have "color_quantization (map rgb points) ?pal = Inr (map (nearest ?pal) (map rgb points))"
    by (rule color_quantization_map)
  moreover have "map2 (\<lambda>v c. v\<lparr>rgb := uint8_store c\<rparr>) points (map (nearest ?pal) (map rgb points)) =
        map (\<lambda>v. v\<lparr>rgb := uint8_store (nearest ?pal (rgb v))\<rparr>) points"
    by (induction points) simp_all
  ultimately show ?thesis by (simp add: fix_vertex_colors_def)
qed

lemma assign_classes_map:
  "assign_classes segmentation_map points =
     map (\<lambda>v. fold assign_class segmentation_map (v\<lparr>seg_class_v := ''''\<rparr>)) points"
proof -
  have "fold (\<lambda>entry pts. map (assign_class entry) pts) es pts = map (fold assign_class es) pts"
    for es and pts :: "vertex list"
    by (induction es arbitrary: pts) simp_all
  then show ?thesis by (simp add: assign_classes_def comp_def)
qed

lemma assign_class_rgb: "rgb (assign_class entry v) = rgb v"
  by (simp add: assign_class_def)

lemma fold_assign_class_rgb: "rgb (fold assign_class es v) = rgb v"
  by (induction es arbitrary: v) (simp_all add: assign_class_rgb)

lemma fold_assign_class_labelled:
  "\<exists>entry \<in> set es. RGB (snd entry) = rgb v \<Longrightarrow>
   \<exists>entry \<in> set es. seg_class_v (fold assign_class es v) = fst entry \<and> RGB (snd entry) = rgb v"
proof (induction es rule: rev_induct)
  case Nil
  then show ?case by simp
next
  case (snoc e es)
  let ?w = "fold assign_class es v"
  have rgbw: "rgb ?w = rgb v" by (rule fold_assign_class_rgb)
  show ?case
  proof (cases "RGB (snd e) = rgb v")
    case True
    then have "seg_class_v (fold assign_class (es @ [e]) v) = fst e"
      by (simp add: assign_class_def rgbw)
    with True show ?thesis by auto
  next
    case False
    with snoc.prems have "\<exists>entry \<in> set es. RGB (snd entry) = rgb v" by auto
    from snoc.IH [OF this] obtain entry where
      "entry \<in> set es" "seg_class_v ?w = fst entry" "RGB (snd entry) = rgb v" by blast
    moreover from False have "fold assign_class (es @ [e]) v = ?w"
      by (simp add: assign_class_def rgbw)
    ultimately show ?thesis by auto
  qed
qed

text \<open>
  Claim C9, as stated, fails on the code in two ways. (1) \<open>_assign_classes\<close> marks an
  unlabelled vertex by the empty class string, and a class of the segmentation mapping
  may itself be named by the empty string: its vertices end with the class \<open>''\<close>.
  (2) Nothing checks the colours of the mapping: a colour with a component above 255
  (here \<open>(20, 30, 600)\<close>) is stored modulo 256 in the colour columns, so the exact
  comparison of \<open>_assign_classes\<close> matches no vertex and the vertex stays unlabelled. In
  both cases the segmentation mapping is non-empty and construction goes on.
\<close>

theorem every_vertex_labelled_counterexample:
  "[('''', \<lparr>ID = 1, RGB = (255, 0, 0)\<rparr>)] \<noteq> [] \<and>
   (\<exists>fixed.
      fix_vertex_colors [('''', \<lparr>ID = 1, RGB = (255, 0, 0)\<rparr>)]
        [\<lparr>pos = (0, 0, 0), nrm = (0, 0, 1), rgb = (250, 3, 0), seg_class_v = ''''\<rparr>] = Inr fixed \<and>
      map seg_class_v (assign_classes [('''', \<lparr>ID = 1, RGB = (255, 0, 0)\<rparr>)] fixed) = ['''']) \<and>
   [(''wall'', \<lparr>ID = 1, RGB = (20, 30, 600)\<rparr>)] \<noteq> [] \<and>
   (\<exists>fixed.
      fix_vertex_colors [(''wall'', \<lparr>ID = 1, RGB = (20, 30, 600)\<rparr>)]
        [\<lparr>pos = (0, 0, 0), nrm = (0, 0, 1), rgb = (20, 30, 90), seg_class_v = ''''\<rparr>] = Inr fixed \<and>
      map rgb fixed = [(20, 30, 88)] \<and>
      map seg_class_v (assign_classes [(''wall'', \<lparr>ID = 1, RGB = (20, 30, 600)\<rparr>)] fixed) = [''''])"
proof -
  let ?m1 = "[('''', \<lparr>ID = 1, RGB = (255, 0, 0)\<rparr>)]"
  let ?p1 = "[\<lparr>pos = (0, 0, 0), nrm = (0, 0, 1), rgb = (250, 3, 0), seg_class_v = ''''\<rparr>]"
  let ?q1 = "[\<lparr>pos = (0, 0, 0), nrm = (0, 0, 1), rgb = (255, 0, 0), seg_class_v = ''''\<rparr>]"
  let ?m2 = "[(''wall'', \<lparr>ID = 1, RGB = (20, 30, 600)\<rparr>)]"
  let ?p2 = "[\<lparr>pos = (0, 0, 0), nrm = (0, 0, 1), rgb = (20, 30, 90), seg_class_v = ''''\<rparr>]"
  let ?q2 = "[\<lparr>pos = (0, 0, 0), nrm = (0, 0, 1), rgb = (20, 30, 88), seg_class_v = ''''\<rparr>]"
  have f1: "fix_vertex_colors ?m1 ?p1 = Inr ?q1"
    by (simp add: fix_vertex_colors_nonempty nearest_def closest_def uint8_store_def)
  have c1: "map seg_class_v (assign_classes ?m1 ?q1) = ['''']"
    by (simp add: assign_classes_def assign_class_def)
  have f2: "fix_vertex_colors ?m2 ?p2 = Inr ?q2"
    by (simp add: fix_vertex_colors_nonempty nearest_def closest_def uint8_store_def)
  have r2: "map rgb ?q2 = [(20, 30, 88)]" by simp
  have c2: "map seg_class_v (assign_classes ?m2 ?q2) = ['''']"
    by (simp add: assign_classes_def assign_class_def)
  have n1: "?m1 \<noteq> []" and n2: "?m2 \<noteq> []" by simp_all
  show ?thesis
    by (intro conjI exI [of _ ?q1] exI [of _ ?q2] n1 n2 f1 c1 f2 r2 c2)
qed

text \<open>
  Claim C9, amended. For a non-empty segmentation mapping in which no class is named by
  the empty string and every colour has its components between 0 and 255:
  \<open>_fix_vertex_colors\<close> succeeds and replaces every vertex colour by a colour of the
  mapping, and after \<open>_assign_classes\<close> every vertex carries a non-empty class, the name
  of a mapping entry that has exactly the vertex's colour. The case of a vertex that
  matches no entry does not occur.
\<close>

theorem every_vertex_labelled_valid_palette:
  assumes "segmentation_map \<noteq> []"
    and "list_all (\<lambda>entry. fst entry \<noteq> '''' \<and> uint8_color (RGB (snd entry))) segmentation_map"
  shows "\<exists>fixed. fix_vertex_colors segmentation_map points = Inr fixed \<and>
           length (assign_classes segmentation_map fixed) = length points \<and>
           list_all
             (\<lambda>v. seg_class_v v \<noteq> '''' \<and>
                  list_ex (\<lambda>entry. seg_class_v v = fst entry \<and> rgb v = RGB (snd entry))
                    segmentation_map)
             (assign_classes segmentation_map fixed)"
proof -
  let ?pal = "map (\<lambda>entry. RGB (snd entry)) segmentation_map"
  let ?fixed = "map (\<lambda>v. v\<lparr>rgb := uint8_store (nearest ?pal (rgb v))\<rparr>) points"
  have fixed_eq: "fix_vertex_colors segmentation_map points = Inr ?fixed"
    using assms(1) by (rule fix_vertex_colors_nonempty)
  have pal: "?pal \<noteq> []" using assms(1) by simp
  have valid: "fst entry \<noteq> '''' \<and> uint8_color (RGB (snd entry))"
    if "entry \<in> set segmentation_map" for entry
    using assms(2) that by (simp add: list_all_iff)
  have lab: "seg_class_v v \<noteq> '''' \<and>
             list_ex (\<lambda>entry. seg_class_v v = fst entry \<and> rgb v = RGB (snd entry)) segmentation_map"
    if "v \<in> set (assign_classes segmentation_map ?fixed)" for v
  proof -
    from that obtain u where u: "u \<in> set points"
      and v: "v = fold assign_class segmentation_map
                    (u\<lparr>rgb := uint8_store (nearest ?pal (rgb u)), seg_class_v := ''''\<rparr>)"
      by (auto simp: assign_classes_map)
    let ?w = "u\<lparr>rgb := uint8_store (nearest ?pal (rgb u)), seg_class_v := ''''\<rparr>"
    have "nearest ?pal (rgb u) \<in> set ?pal" using pal by (rule nearest_in_palette)
    then have "nearest ?pal (rgb u) \<in> (\<lambda>entry. RGB (snd entry)) ` set segmentation_map"
      by (simp only: set_map)
    then have "\<exists>entry \<in> set segmentation_map. RGB (snd entry) = nearest ?pal (rgb u)"
      by (rule in_image_ex)
    then obtain e0 where e0: "e0 \<in> set segmentation_map" "RGB (snd e0) = nearest ?pal (rgb u)"
      by blast
    from valid [OF e0(1)] e0(2) have "uint8_color (nearest ?pal (rgb u))" by simp
    then have "uint8_store (nearest ?pal (rgb u)) = nearest ?pal (rgb u)"
      by (rule uint8_store_id)
    with e0 have "\<exists>entry \<in> set segmentation_map. RGB (snd entry) = rgb ?w" by auto
    from fold_assign_class_labelled [OF this] obtain entry where e:
      "entry \<in> set segmentation_map" "seg_class_v v = fst entry" "RGB (snd entry) = rgb ?w"
      unfolding v by blast
    have "rgb v = rgb ?w" unfolding v by (rule fold_assign_class_rgb)
    with e valid [OF e(1)] show ?thesis by (auto simp: list_ex_iff)
  qed
  have "length (assign_classes segmentation_map ?fixed) = length points"
    by (simp add: assign_classes_map)
  moreover have "list_all
             (\<lambda>v. seg_class_v v \<noteq> '''' \<and>
                  list_ex (\<lambda>entry. seg_class_v v = fst entry \<and> rgb v = RGB (snd entry))
                    segmentation_map)
             (assign_classes segmentation_map ?fixed)"
    using lab by (simp add: list_all_iff)
  ultimately show ?thesis using fixed_eq by (intro exI [of _ ?fixed] conjI)
qed

theorem every_vertex_labelled_valid_palette_witness:
  "[(''wall'', \<lparr>ID = 1, RGB = (255, 0, 0)\<rparr>), (''window'', \<lparr>ID = 2, RGB = (0, 0, 255)\<rparr>)] \<noteq> [] \<and>
   list_all (\<lambda>entry. fst entry \<noteq> '''' \<and> uint8_color (RGB (snd entry)))
     [(''wall'', \<lparr>ID = 1, RGB = (255, 0, 0)\<rparr>), (''window'', \<lparr>ID = 2, RGB = (0, 0, 255)\<rparr>)] \<and>
   (\<exists>fixed.
      fix_vertex_colors
        [(''wall'', \<lparr>ID = 1, RGB = (255, 0, 0)\<rparr>), (''window'', \<lparr>ID = 2, RGB = (0, 0, 255)\<rparr>)]
        [\<lparr>pos = (0, 0, 0), nrm = (0, 0, 1), rgb = (250, 3, 0), seg_class_v = ''''\<rparr>,
         \<lparr>pos = (1, 0, 0), nrm = (0, 0, 1), rgb = (2, 3, 200), seg_class_v = ''''\<rparr>] = Inr fixed \<and>
      map seg_class_v
        (assign_classes
           [(''wall'', \<lparr>ID = 1, RGB = (255, 0, 0)\<rparr>), (''window'', \<lparr>ID = 2, RGB = (0, 0, 255)\<rparr>)]
           fixed) = [''wall'', ''window''])"
proof -
  let ?m = "[(''wall'', \<lparr>ID = 1, RGB = (255, 0, 0)\<rparr>), (''window'', \<lparr>ID = 2, RGB = (0, 0, 255)\<rparr>)]"
  let ?p = "[\<lparr>pos = (0, 0, 0), nrm = (0, 0, 1), rgb = (250, 3, 0), seg_class_v = ''''\<rparr>,
         \<lparr>pos = (1, 0, 0), nrm = (0, 0, 1), rgb = (2, 3, 200), seg_class_v = ''''\<rparr>]"
  let ?q = "[\<lparr>pos = (0, 0, 0), nrm = (0, 0, 1), rgb = (255, 0, 0), seg_class_v = ''''\<rparr>,
         \<lparr>pos = (1, 0, 0), nrm = (0, 0, 1), rgb = (0, 0, 255), seg_class_v = ''''\<rparr>]"
  have ne: "?m \<noteq> []" by simp
  have ok: "list_all (\<lambda>entry. fst entry \<noteq> '''' \<and> uint8_color (RGB (snd entry))) ?m"
    by (simp add: uint8_color_def)
  have "\<exists>fixed. fix_vertex_colors ?m ?p = Inr fixed"
    using every_vertex_labelled_valid_palette [OF ne ok, of ?p] by (elim exE conjE) (rule exI)
  then obtain fixed where f: "fix_vertex_colors ?m ?p = Inr fixed" ..
  have q: "fix_vertex_colors ?m ?p = Inr ?q"
    by (simp add: fix_vertex_colors_nonempty nearest_def closest_def uint8_store_def)
  from f [symmetric] q have "Inr fixed = (Inr ?q :: error + vertex list)" by (rule trans)
  then have fq: "fixed = ?q" by (simp only: sum.inject)
  have "map seg_class_v (assign_classes ?m ?q) = [''wall'', ''window'']"
    by (simp add: assign_classes_def assign_class_def)
  then have c: "map seg_class_v (assign_classes ?m fixed) = [''wall'', ''window'']"
    by (simp only: fq)
  show ?thesis
    by (intro conjI exI [of _ fixed] ne ok f c)
qed

subsection \<open>Joining the vertex table onto the faces\<close>

lemma those_map_None: "those (map f xs) = None \<longleftrightarrow> (\<exists>x \<in> set xs. f x = None)"
  by (induction xs) (auto split: option.splits)

lemma those_map_Some:
  "those (map f xs) = Some ys \<Longrightarrow> length ys = length xs \<and> (\<forall>i < length xs. f (xs ! i) = Some (ys ! i))"
proof (induction xs arbitrary: ys)
  case Nil
  then show ?case by simp
next
  case (Cons x xs)
  from Cons.prems obtain y zs where y: "f x = Some y" and zs: "those (map f xs) = Some zs"
    and ys: "ys = y # zs"
    by (auto split: option.splits)
  from Cons.IH [OF zs] have "length zs = length xs" "\<forall>i < length xs. f (xs ! i) = Some (zs ! i)"
    by simp_all
  with y ys show ?case by (auto simp: nth_Cons split: nat.splits)
qed

lemma face_of_row_None: "face_of_row points row = None \<longleftrightarrow> \<not> classes_agree points row"
  by (cases row)
    (auto simp: face_of_row_def classes_agree_def same_class_def split: option.splits)

lemma face_of_row_Some:
  assumes "face_of_row points (a, b, c) = Some f"
  shows "a < length points \<and> b < length points \<and> c < length points \<and>
         id_v1 f = a \<and> id_v2 f = b \<and> id_v3 f = c \<and>
         seg_class f = seg_class_v (points ! a) \<and>
         seg_class f = seg_class_v (points ! b) \<and>
         seg_class f = seg_class_v (points ! c) \<and>
         pt_v1 f = point_attrs.truncate (points ! a) \<and>
         pt_v2 f = point_attrs.truncate (points ! b) \<and>
         pt_v3 f = point_attrs.truncate (points ! c)"
  using assms
  by (auto simp: face_of_row_def merge_vertex_def split: option.splits if_splits)

lemma get_segmented_mesh_info_fails:
  "\<not> list_all (classes_agree points) meshes \<Longrightarrow>
   get_segmented_mesh_info points meshes = Inl NotImplementedError"
proof -
  assume "\<not> list_all (classes_agree points) meshes"
  then have "\<exists>row \<in> set meshes. face_of_row points row = None"
    by (simp add: list_all_iff face_of_row_None)
  then have "those (map (face_of_row points) meshes) = None"
    by (simp add: those_map_None)
  then show ?thesis by (simp add: get_segmented_mesh_info_def)
qed

lemma get_segmented_mesh_info_succeeds:
  assumes "list_all (classes_agree points) meshes"
  shows "\<exists>mesh_df. get_segmented_mesh_info points meshes = Inr mesh_df \<and>
           length mesh_df = length meshes \<and>
           (\<forall>i < length meshes. face_of_row points (meshes ! i) = Some (mesh_df ! i))"
proof -
  from assms have "\<not> (\<exists>row \<in> set meshes. face_of_row points row = None)"
    by (simp add: list_all_iff face_of_row_None)
  then have "those (map (face_of_row points) meshes) \<noteq> None"
    by (simp only: those_map_None not_False_eq_True)
  then obtain mesh_df where m: "those (map (face_of_row points) meshes) = Some mesh_df"
    by auto
  from those_map_Some [OF m] m show ?thesis
    by (simp add: get_segmented_mesh_info_def)
qed

section \<open>Properties of the face normals\<close>

lemma lagrange_identity:
  "npsumdot a a * npsumdot b b - (npsumdot a b)\<^sup>2 = npsumdot (np_cross a b) (np_cross a b)"
  by (cases a; cases b) (simp add: power2_eq_square algebra_simps)

lemma npsumdot_self_nonneg: "0 \<le> npsumdot a a"
  by (cases a) simp

lemma npsumdot_self_zero: "npsumdot a a = 0 \<Longrightarrow> npsumdot a b = 0"
proof (cases a; cases b)
  fix a1 a2 a3 b1 b2 b3 :: real
  assume a: "a = (a1, a2, a3)" and b: "b = (b1, b2, b3)" and z: "npsumdot a a = 0"
  from z a have "a1 * a1 + a2 * a2 + a3 * a3 = 0" by simp
  then have "a1 = 0 \<and> a2 = 0 \<and> a3 = 0"
    by (metis add_nonneg_eq_0_iff sum_squares_eq_zero_iff zero_le_square add_nonneg_nonneg)
  then show ?thesis by (simp add: a b)
qed

lemma npsumdot_commute: "npsumdot a b = npsumdot b a"
  by (cases a; cases b) (simp add: mult.commute)

lemma cauchy_schwarz: "\<bar>npsumdot a b\<bar> \<le> np_norm a * np_norm b"
proof -
  have "(npsumdot a b)\<^sup>2 \<le> npsumdot a a * npsumdot b b"
    using lagrange_identity [of a b] npsumdot_self_nonneg [of "np_cross a b"] by linarith
  then have "sqrt ((npsumdot a b)\<^sup>2) \<le> sqrt (npsumdot a a * npsumdot b b)"
    by (rule real_sqrt_le_mono)
  then show ?thesis by (simp add: np_norm_def real_sqrt_mult)
qed

lemma arccos_gt_half_pi: "\<bar>y\<bar> \<le> 1 \<Longrightarrow> arccos y > pi / 2 \<longleftrightarrow> y < 0"
  using arccos_less_mono [of 0 y] by (simp add: arccos_0)

text \<open>
  More than 90 degrees apart means a negative dot product: the clamping near 1 and -1
  and the division by the magnitudes change nothing in exact arithmetic.
\<close>

lemma check_angle_iff: "check_angle f v \<longleftrightarrow> npsumdot f v < 0"
proof (cases "np_norm f * np_norm v = 0")
  case True
  then have "npsumdot f f = 0 \<or> npsumdot v v = 0" by (auto simp: np_norm_def)
  then have "npsumdot f v = 0"
    using npsumdot_self_zero [of f v] npsumdot_self_zero [of v f] npsumdot_commute [of f v] by auto
  with True show ?thesis by (simp add: check_angle_def)
next
  case False
  define dv where "dv = np_norm f * np_norm v"
  have "0 \<le> dv" by (simp add: dv_def np_norm_def npsumdot_self_nonneg)
  moreover from False have "dv \<noteq> 0" by (simp only: dv_def not_False_eq_True)
  ultimately have dv: "0 < dv" by linarith
  define c where "c = npsumdot f v / dv"
  have cabs: "\<bar>c\<bar> \<le> 1"
    using cauchy_schwarz [of f v] dv by (simp add: c_def dv_def [symmetric])
  define c1 where "c1 = (if np_isclose c 1 (1 / 100000000) then 1 else c)"
  define c2 where "c2 = (if np_isclose c1 (- 1) (1 / 100000000) then - 1 else c1)"
  have c2abs: "\<bar>c2\<bar> \<le> 1" using cabs by (simp add: c1_def c2_def)
  have sign: "c2 < 0 \<longleftrightarrow> c < 0"
    using cabs by (auto simp: c1_def c2_def np_isclose_def split: if_splits)
  have "check_angle f v \<longleftrightarrow> arccos c2 > pi / 2"
    using False by (simp add: check_angle_def Let_def c2_def c1_def c_def dv_def)
  also have "\<dots> \<longleftrightarrow> c2 < 0" using c2abs by (rule arccos_gt_half_pi)
  also have "\<dots> \<longleftrightarrow> c < 0" by (rule sign)
  also have "\<dots> \<longleftrightarrow> npsumdot f v < 0"
    using dv by (simp add: c_def divide_less_0_iff)
  finally show ?thesis .
qed

text \<open>
  Claim C3 (the reported count). Two faces with the same cross product \<open>(0, 0, 1)\<close>: the
  vertex normals of the first all point the other way, so its flip resolves it; those of
  the second disagree among themselves, so it stays unresolved after the flip. One face is
  unresolved after the flip, yet the error reports 2, the number of faces flagged before
  the flip (\<open>count\<close> is computed from \<open>angle_check\<close>, not from \<open>angle_check_2\<close>).
\<close>

theorem triangle_face_normals_reports_flagged_count:
  "triangle_face_normals
     [(1, 0, 0), (1, 0, 0)] [(0, 1, 0), (0, 1, 0)]
     [(0, 0, - 1), (0, 0, 1)] [(0, 0, - 1), (0, 0, 1)] [(0, 0, - 1), (0, 0, - 1)]
     = Inl (RuntimeError_normals 2) \<and>
   unresolved_after_flip
     [(1, 0, 0), (1, 0, 0)] [(0, 1, 0), (0, 1, 0)]
     [(0, 0, - 1), (0, 0, 1)] [(0, 0, - 1), (0, 0, 1)] [(0, 0, - 1), (0, 0, - 1)]
     = 1"
  by (simp add: triangle_face_normals_def unresolved_after_flip_def check_angles_def
      check_angle_iff)

section \<open>Properties of the line and plane test\<close>

lemma mask_select_map:
  "mask_select (map m xs) (map h xs) = map h (filter m xs)"
  by (induction xs) simp_all

lemma mask_assign_map:
  "mask_assign (map f xs) (map m xs) (map g (filter m xs)) =
     map (\<lambda>x. if m x then g x else f x) xs"
proof (induction xs)
  case Nil
  then show ?case by simp
next
  case (Cons x xs)
  then show ?case by (cases "m x") simp_all
qed

lemma zip_rows: "length xs = length ys \<Longrightarrow> xs = map fst (zip xs ys) \<and> ys = map snd (zip xs ys)"
  by simp

lemma find_if_line_and_plane_intersect_rows:
  "find_if_line_and_plane_intersect (map fst rows) (map snd rows) plane_points domain =
     Inr (map (edge_rule plane_points domain) rows)"
proof -
  obtain q0 q1 q2 where pp: "plane_points = (q0, q1, q2)" by (cases plane_points)
  define n where "n = np_cross (vsub q1 q0) (vsub q2 q0)"
  define d where "d = - npsumdot n q0"
  define on_plane where
    "on_plane = (\<lambda>r :: vec3 \<times> vec3. np_isclose (npsumdot (vsub (snd r) (fst r)) n) 0 (1 / 1000000))"
  define inside where
    "inside = (\<lambda>r :: vec3 \<times> vec3. on_plane r \<and> in_domain domain (fst r) \<and> in_domain domain (snd r))"
  define crosses where
    "crosses = (\<lambda>r :: vec3 \<times> vec3.
        \<not> - 1 * ((npsumdot (fst r) n + d) / npsumdot (vsub (snd r) (fst r)) n) < 0 \<and>
        \<not> - 1 * ((npsumdot (fst r) n + d) / npsumdot (vsub (snd r) (fst r)) n) > 1)"
  have vec: "map2 vsub (map snd rows) (map fst rows) = map (\<lambda>r. vsub (snd r) (fst r)) rows"
    by (induction rows) simp_all
  have vop: "map (\<lambda>v. np_isclose (npsumdot v n) 0 (1 / 1000000))
               (map (\<lambda>r. vsub (snd r) (fst r)) rows) = map on_plane rows"
    by (simp add: on_plane_def)
  have res: "map2 (\<and>) (map on_plane rows)
               (map2 (\<and>) (map (in_domain domain) (map fst rows))
                          (map (in_domain domain) (map snd rows))) = map inside rows"
    by (induction rows) (simp_all add: inside_def)
  have sel1: "mask_select (map Not (map on_plane rows)) (map fst rows) =
                map fst (filter (\<lambda>r. \<not> on_plane r) rows)"
    using mask_select_map [of "\<lambda>r. \<not> on_plane r" rows fst] by (simp add: comp_def)
  have sel2: "mask_select (map Not (map on_plane rows)) (map snd rows) =
                map snd (filter (\<lambda>r. \<not> on_plane r) rows)"
    using mask_select_map [of "\<lambda>r. \<not> on_plane r" rows snd] by (simp add: comp_def)
  have du: "map2 vsub (map snd xs) (map fst xs) = map (\<lambda>r. vsub (snd r) (fst r)) xs"
    for xs :: "(vec3 \<times> vec3) list"
    by (induction xs) simp_all
  have t: "map (\<lambda>s. \<not> s < 0 \<and> \<not> s > 1)
             (map2 (\<lambda>u w. - 1 * ((npsumdot u n + d) / npsumdot w n))
                (map fst xs) (map (\<lambda>r. vsub (snd r) (fst r)) xs)) = map crosses xs"
    for xs :: "(vec3 \<times> vec3) list"
    by (induction xs) (simp_all add: crosses_def)
  have assign: "mask_assign (map inside rows) (map Not (map on_plane rows))
                  (map crosses (filter (\<lambda>r. \<not> on_plane r) rows)) =
                map (\<lambda>r. if \<not> on_plane r then crosses r else inside r) rows"
    using mask_assign_map [of inside rows "\<lambda>r. \<not> on_plane r" crosses] by (simp add: comp_def)
  have rule: "edge_rule plane_points domain r = (if \<not> on_plane r then crosses r else inside r)"
    for r
  proof -
    obtain p0 p1 where Pair: "r = (p0, p1)" by (rule prod.exhaust)
    have par: "edge_parallel plane_points p0 p1 = on_plane r"
      by (simp add: edge_parallel_def on_plane_def np_isclose_def plane_normal_def pp n_def Pair
          npsumdot_commute)
    have tt: "edge_t plane_points p0 p1 =
          - 1 * ((npsumdot (fst r) n + d) / npsumdot (vsub (snd r) (fst r)) n)"
      by (simp add: edge_t_def plane_offset_def plane_normal_def pp n_def d_def Pair
          npsumdot_commute)
    show ?thesis
      unfolding edge_rule_def Pair prod.case par tt crosses_def inside_def
      by (auto simp: Pair not_less)
  qed
  have all_on: "map inside rows = map (edge_rule plane_points domain) rows"
    if "length (filter id (map on_plane rows)) = length rows"
  proof -
    from that have "length (filter on_plane rows) = length rows"
      by (simp add: filter_map comp_def)
    then have "\<forall>r \<in> set rows. on_plane r"
      by (metis filter_id_conv length_filter_less less_irrefl_nat)
    then show ?thesis by (simp add: rule)
  qed
  show ?thesis
  proof (cases "length (filter id (map on_plane rows)) = length rows")
    case True
    then show ?thesis
      unfolding find_if_line_and_plane_intersect_def pp prod.case Let_def
        n_def [symmetric] d_def [symmetric] vec vop res
      by (simp add: all_on pp [symmetric])
  next
    case False
    have "map (\<lambda>r. if \<not> on_plane r then crosses r else inside r) rows =
          map (edge_rule plane_points domain) rows"
      by (simp add: rule)
    with False show ?thesis
      unfolding find_if_line_and_plane_intersect_def pp prod.case Let_def
        n_def [symmetric] d_def [symmetric] vec vop res sel1 sel2 du t assign
      by (simp add: pp [symmetric])
  qed
qed

lemma find_if_line_and_plane_intersect_zip:
  assumes "length vertices_1 = length vertices_2"
  shows "find_if_line_and_plane_intersect vertices_1 vertices_2 plane_points domain =
           Inr (map (edge_rule plane_points domain) (zip vertices_1 vertices_2))"
proof -
  from assms have "map fst (zip vertices_1 vertices_2) = vertices_1"
    and "map snd (zip vertices_1 vertices_2) = vertices_2" by simp_all
  with find_if_line_and_plane_intersect_rows [of "zip vertices_1 vertices_2" plane_points domain]
  show ?thesis by simp
qed

text \<open>
  Claim C6. Membership rules of the line and plane test, for the edge in row \<open>i\<close>:
  (a) if the edge direction is parallel to the plane (the absolute value of its dot
  product with the plane normal is at most \<open>1e-6\<close>), the edge is marked iff both of its end
  points lie in the domain box; (b) otherwise it is marked iff the parameter
  \<open>t = -(dot(n, p0) + d) / dot(n, p1 - p0)\<close> satisfies \<open>0 \<le> t \<le> 1\<close>.
\<close>

theorem line_plane_membership_rules:
  assumes "length vertices_1 = length vertices_2" and "i < length vertices_1"
  shows "\<exists>results.
           find_if_line_and_plane_intersect vertices_1 vertices_2 plane_points domain = Inr results \<and>
           length results = length vertices_1 \<and>
           results ! i =
             (if edge_parallel plane_points (vertices_1 ! i) (vertices_2 ! i)
              then in_domain domain (vertices_1 ! i) \<and> in_domain domain (vertices_2 ! i)
              else 0 \<le> edge_t plane_points (vertices_1 ! i) (vertices_2 ! i) \<and>
                   edge_t plane_points (vertices_1 ! i) (vertices_2 ! i) \<le> 1)"
proof -
  let ?results = "map (edge_rule plane_points domain) (zip vertices_1 vertices_2)"
  have "find_if_line_and_plane_intersect vertices_1 vertices_2 plane_points domain = Inr ?results"
    using assms(1) by (rule find_if_line_and_plane_intersect_zip)
  moreover have "length ?results = length vertices_1" using assms(1) by simp
  moreover have "?results ! i =
             (if edge_parallel plane_points (vertices_1 ! i) (vertices_2 ! i)
              then in_domain domain (vertices_1 ! i) \<and> in_domain domain (vertices_2 ! i)
              else 0 \<le> edge_t plane_points (vertices_1 ! i) (vertices_2 ! i) \<and>
                   edge_t plane_points (vertices_1 ! i) (vertices_2 ! i) \<le> 1)"
    using assms by (simp add: edge_rule_def)
  ultimately show ?thesis by (intro exI [of _ ?results] conjI)
qed

theorem line_plane_membership_rules_witness:
  "length [(3, 0, 0), (1, - 2, 0), (4, 1, 0) :: vec3] =
     length [(9 / 2, - 1, 0), (31 / 10, - 23 / 20, - 3), (6, 3, - 2) :: vec3] \<and>
   (1 :: nat) < length [(3, 0, 0), (1, - 2, 0), (4, 1, 0) :: vec3] \<and>
   (\<exists>results.
      find_if_line_and_plane_intersect
        [(3, 0, 0), (1, - 2, 0), (4, 1, 0)]
        [(9 / 2, - 1, 0), (31 / 10, - 23 / 20, - 3), (6, 3, - 2)]
        ((3, 0, 0), (0, 2, 0), (0, 0, - 1))
        ((2, - 2, - 5), (5, 2, 2 / 5)) = Inr results \<and>
      length results = 3 \<and> results ! 1 = True)"
proof -
  let ?v1 = "[(3, 0, 0), (1, - 2, 0), (4, 1, 0) :: vec3]"
  let ?v2 = "[(9 / 2, - 1, 0), (31 / 10, - 23 / 20, - 3), (6, 3, - 2) :: vec3]"
  let ?pp = "((3, 0, 0), (0, 2, 0), (0, 0, - 1)) :: vec3 \<times> vec3 \<times> vec3"
  let ?dom = "((2, - 2, - 5), (5, 2, 2 / 5)) :: box"
  have len: "length ?v1 = length ?v2" by simp
  have i: "(1 :: nat) < length ?v1" by simp
  have "\<exists>results. find_if_line_and_plane_intersect ?v1 ?v2 ?pp ?dom = Inr results \<and>
          length results = 3 \<and> results ! 1 = True"
    using line_plane_membership_rules [OF len i, of ?pp ?dom]
    by (simp add: edge_parallel_def edge_t_def plane_normal_def plane_offset_def numeral_3_eq_3)
  with len i show ?thesis by (intro conjI)
qed

text \<open>
  The function has no failing path at all: whatever the plane points are, it returns.
\<close>

lemma find_if_line_and_plane_intersect_returns:
  "length vertices_1 = length vertices_2 \<Longrightarrow>
   \<exists>results. find_if_line_and_plane_intersect vertices_1 vertices_2 plane_points domain = Inr results"
  by (simp add: find_if_line_and_plane_intersect_zip)

text \<open>
  Claim C4 (the behaviour of the code at a degenerate plane). The three plane points
  \<open>(0,0,0), (1,0,0), (2,0,0)\<close> are collinear and the cross product of the two in-plane
  vectors is the zero vector; the call does not fail but returns a result, in which the
  edge from \<open>(0,0,0)\<close> to \<open>(1,1,1)\<close> is marked as intersecting.
\<close>

theorem degenerate_plane_returns_result:
  "plane_normal ((0, 0, 0), (1, 0, 0), (2, 0, 0)) = (0, 0, 0) \<and>
   find_if_line_and_plane_intersect [(0, 0, 0)] [(1, 1, 1)]
     ((0, 0, 0), (1, 0, 0), (2, 0, 0)) ((0, 0, 0), (2, 2, 2)) = Inr [True]"
  by (simp add: find_if_line_and_plane_intersect_zip edge_rule_def edge_parallel_def
      plane_normal_def)

section \<open>Properties of the connected components\<close>

lemma set_place: "set (place P m cs) = insert m {c \<in> set cs. \<not> P c}"
  by (induction cs) auto

lemma distinct_concat_filter: "distinct (concat cs) \<Longrightarrow> distinct (concat (filter Q cs))"
  by (induction cs) auto

lemma hits_disjoint_rest:
  "distinct (concat cs) \<Longrightarrow>
   set (concat (filter P cs)) \<inter> set (concat (filter (\<lambda>c. \<not> P c) cs)) = {}"
  by (induction cs) auto

lemma distinct_concat_place:
  "distinct (concat cs) \<Longrightarrow> distinct m \<Longrightarrow>
   set m \<inter> set (concat (filter (\<lambda>c. \<not> P c) cs)) = {} \<Longrightarrow>
   distinct (concat (place P m cs))"
proof (induction cs)
  case Nil
  then show ?case by simp
next
  case (Cons c cs)
  show ?case
  proof (cases "P c")
    case True
    with Cons.prems show ?thesis by (simp add: distinct_concat_filter)
  next
    case False
    from Cons.prems False have ih: "distinct (concat (place P m cs))"
      by (intro Cons.IH) auto
    have "set (concat (place P m cs)) = set m \<union> set (concat (filter (\<lambda>c. \<not> P c) cs))"
      by (auto simp: set_place)
    moreover from Cons.prems False have "set c \<inter> set m = {}" by auto
    moreover from Cons.prems have "set c \<inter> set (concat (filter (\<lambda>c. \<not> P c) cs)) = {}" by auto
    ultimately have "set c \<inter> set (concat (place P m cs)) = {}" by blast
    with Cons.prems ih False show ?thesis by simp
  qed
qed

lemma add_edge_distinct:
  assumes "distinct (concat cs)"
  shows "distinct (concat (add_edge cs (u, v)))"
proof -
  let ?P = "touches u v"
  let ?m = "remdups (concat (filter ?P cs) @ [u, v])"
  have "set (concat (filter ?P cs)) \<inter> set (concat (filter (\<lambda>c. \<not> ?P c) cs)) = {}"
    using assms by (rule hits_disjoint_rest)
  moreover have "u \<notin> set (concat (filter (\<lambda>c. \<not> ?P c) cs))"
    and "v \<notin> set (concat (filter (\<lambda>c. \<not> ?P c) cs))"
    by (auto simp: touches_def)
  ultimately have "set ?m \<inter> set (concat (filter (\<lambda>c. \<not> ?P c) cs)) = {}"
    by auto
  with assms have "distinct (concat (place ?P ?m cs))"
    by (intro distinct_concat_place) simp_all
  then show ?thesis by (simp add: add_edge_def)
qed

lemma add_edge_keeps_together:
  assumes "c \<in> set cs" and "a \<in> set c" and "b \<in> set c"
  shows "\<exists>c' \<in> set (add_edge cs (u, v)). a \<in> set c' \<and> b \<in> set c'"
proof (cases "touches u v c")
  case True
  let ?m = "remdups (concat (filter (touches u v) cs) @ [u, v])"
  from True assms have "a \<in> set ?m" "b \<in> set ?m" by auto
  moreover have "?m \<in> set (add_edge cs (u, v))" by (simp add: add_edge_def set_place)
  ultimately show ?thesis by blast
next
  case False
  with assms(1) have "c \<in> set (add_edge cs (u, v))" by (simp add: add_edge_def set_place)
  with assms(2,3) show ?thesis by blast
qed

lemma add_edge_joins: "\<exists>c \<in> set (add_edge cs (u, v)). u \<in> set c \<and> v \<in> set c"
proof -
  let ?m = "remdups (concat (filter (touches u v) cs) @ [u, v])"
  have "?m \<in> set (add_edge cs (u, v))" by (simp add: add_edge_def set_place)
  moreover have "u \<in> set ?m" "v \<in> set ?m" by simp_all
  ultimately show ?thesis by blast
qed

lemma add_edge_nodes:
  "set (concat (add_edge cs (u, v))) = set (concat cs) \<union> {u, v}"
proof -
  let ?P = "touches u v"
  have "set (concat cs) = set (concat (filter ?P cs)) \<union> set (concat (filter (\<lambda>c. \<not> ?P c) cs))"
    by auto
  then show ?thesis by (auto simp: add_edge_def set_place)
qed

lemma add_edge_no_empty: "[] \<notin> set cs \<Longrightarrow> [] \<notin> set (add_edge cs (u, v))"
  by (auto simp: add_edge_def set_place)

lemma connected_components_snoc:
  "connected_components (es @ [e]) = add_edge (connected_components es) e"
  by (simp add: connected_components_def)

lemma connected_components_distinct: "distinct (concat (connected_components es))"
proof (induction es rule: rev_induct)
  case Nil
  then show ?case by (simp add: connected_components_def)
next
  case (snoc e es)
  then show ?case by (cases e) (simp add: connected_components_snoc add_edge_distinct)
qed

lemma connected_components_no_empty: "[] \<notin> set (connected_components es)"
proof (induction es rule: rev_induct)
  case Nil
  then show ?case by (simp add: connected_components_def)
next
  case (snoc e es)
  then show ?case by (cases e) (simp add: connected_components_snoc add_edge_no_empty)
qed

lemma connected_components_nodes:
  "set (concat (connected_components es)) = fst ` set es \<union> snd ` set es"
proof (induction es rule: rev_induct)
  case Nil
  then show ?case by (simp add: connected_components_def)
next
  case (snoc e es)
  obtain u v where e: "e = (u, v)" by (cases e)
  have "set (concat (connected_components (es @ [e]))) =
        set (concat (connected_components es)) \<union> {u, v}"
    unfolding connected_components_snoc e by (rule add_edge_nodes)
  with snoc.IH show ?case by (auto simp: e)
qed

lemma connected_components_edge:
  "(a, b) \<in> set es \<Longrightarrow> \<exists>c \<in> set (connected_components es). a \<in> set c \<and> b \<in> set c"
proof (induction es rule: rev_induct)
  case Nil
  then show ?case by simp
next
  case (snoc e es)
  obtain u v where e: "e = (u, v)" by (cases e)
  show ?case
  proof (cases "(a, b) = e")
    case True
    with e have "a = u" "b = v" by simp_all
    then show ?thesis unfolding connected_components_snoc e by (simp add: add_edge_joins)
  next
    case False
    with snoc.prems have "(a, b) \<in> set es" by simp
    from snoc.IH [OF this] obtain c where
      "c \<in> set (connected_components es)" "a \<in> set c" "b \<in> set c" by blast
    then show ?thesis unfolding connected_components_snoc e by (rule add_edge_keeps_together)
  qed
qed

lemma only_component_of_node:
  "distinct (concat cs) \<Longrightarrow> c \<in> set cs \<Longrightarrow> x \<in> set c \<Longrightarrow> filter (\<lambda>c'. x \<in> set c') cs = [c]"
proof (induction cs)
  case Nil
  then show ?case by simp
next
  case (Cons d cs)
  show ?case
  proof (cases "x \<in> set d")
    case True
    with Cons.prems(1) have "\<forall>c' \<in> set cs. x \<notin> set c'" by auto
    then have "filter (\<lambda>c'. x \<in> set c') cs = []" by (simp add: filter_empty_conv)
    moreover from True Cons.prems have "c = d" by auto
    ultimately show ?thesis using True by simp
  next
    case False
    with Cons.prems have "c \<in> set cs" by auto
    with Cons.prems Cons.IH False show ?thesis by simp
  qed
qed

section \<open>Properties of the wall partition\<close>

subsection \<open>Every face lies in exactly one component of its group\<close>

lemma component_of_face:
  fixes grp :: "nface list"
  assumes "f \<in> set grp"
  shows "\<exists>c \<in> set (get_connected_meshes_list grp).
           filter (\<lambda>c'. in_component c' f) (get_connected_meshes_list grp) = [c] \<and>
           in_component c f"
proof -
  let ?cs = "get_connected_meshes_list grp"
  have d: "distinct (concat ?cs)"
    by (simp add: get_connected_meshes_list_def connected_components_distinct)
  from assms have "(id_v1 f, id_v2 f) \<in> set (graph_edges grp)"
    and "(id_v2 f, id_v3 f) \<in> set (graph_edges grp)"
    by (auto simp: graph_edges_def)
  then obtain c1 c2 where c1: "c1 \<in> set ?cs" "id_v1 f \<in> set c1" "id_v2 f \<in> set c1"
    and c2: "c2 \<in> set ?cs" "id_v2 f \<in> set c2" "id_v3 f \<in> set c2"
    unfolding get_connected_meshes_list_def
    using connected_components_edge [of "id_v1 f" "id_v2 f" "graph_edges grp"]
      connected_components_edge [of "id_v2 f" "id_v3 f" "graph_edges grp"]
    by blast
  have one: "filter (\<lambda>c'. id_v2 f \<in> set c') ?cs = [c1]"
    using d c1(1) c1(3) by (rule only_component_of_node)
  moreover have "filter (\<lambda>c'. id_v2 f \<in> set c') ?cs = [c2]"
    using d c2(1) c2(2) by (rule only_component_of_node)
  ultimately have "c1 = c2" by simp
  with c1 c2 have inc: "in_component c1 f" by (simp add: in_component_def)
  have "filter (\<lambda>c'. in_component c' f) ?cs =
        filter (\<lambda>c'. id_v1 f \<in> set c' \<and> id_v3 f \<in> set c') (filter (\<lambda>c'. id_v2 f \<in> set c') ?cs)"
    by (auto simp: in_component_def intro: filter_cong)
  also have "\<dots> = [c1]" using inc by (simp add: one in_component_def)
  finally show ?thesis using c1(1) inc by blast
qed

lemma faces_counted_once_step:
  "mset (concat (map (\<lambda>c. filter (P c) (f # g)) cs)) =
     replicate_mset (length (filter (\<lambda>c. P c f) cs)) f + mset (concat (map (\<lambda>c. filter (P c) g) cs))"
  by (induction cs) simp_all

lemma faces_counted_once:
  "\<forall>f \<in> set g. length (filter (\<lambda>c. P c f) cs) = 1 \<Longrightarrow>
   mset (concat (map (\<lambda>c. filter (P c) g) cs)) = mset g"
proof (induction g)
  case Nil
  have "concat (map (\<lambda>c. filter (P c) []) cs) = []" by (induction cs) simp_all
  then show ?case by simp
next
  case (Cons f g)
  from Cons.prems have l: "length (filter (\<lambda>c. P c f) cs) = 1"
    and r: "\<forall>f \<in> set g. length (filter (\<lambda>c. P c f) cs) = 1" by simp_all
  show ?case unfolding faces_counted_once_step l using Cons.IH [OF r] by simp
qed

lemma components_partition_group:
  fixes grp :: "nface list"
  shows "mset (concat (map (\<lambda>c. filter (in_component c) grp) (get_connected_meshes_list grp))) =
         mset grp"
proof (rule faces_counted_once, rule ballI)
  fix f assume "f \<in> set grp"
  from component_of_face [OF this]
  show "length (filter (\<lambda>c. in_component c f) (get_connected_meshes_list grp)) = 1" by auto
qed

lemma component_has_face:
  fixes grp :: "nface list"
  assumes "c \<in> set (get_connected_meshes_list grp)"
  shows "filter (in_component c) grp \<noteq> []"
proof -
  let ?cs = "get_connected_meshes_list grp"
  have d: "distinct (concat ?cs)"
    by (simp add: get_connected_meshes_list_def connected_components_distinct)
  from assms have "c \<noteq> []"
    using connected_components_no_empty [of "graph_edges grp"]
    by (auto simp: get_connected_meshes_list_def)
  then obtain x where x: "x \<in> set c" by (cases c) auto
  with assms have "x \<in> set (concat ?cs)" by auto
  moreover have "set (concat ?cs) = fst ` set (graph_edges grp) \<union> snd ` set (graph_edges grp)"
    by (simp only: get_connected_meshes_list_def connected_components_nodes)
  ultimately have "x \<in> fst ` set (graph_edges grp) \<union> snd ` set (graph_edges grp)"
    by (simp only:)
  then obtain f where f: "f \<in> set grp" and xf: "x = id_v1 f \<or> x = id_v2 f \<or> x = id_v3 f"
    by (auto simp: graph_edges_def)
  from component_of_face [OF f] obtain c' where c': "c' \<in> set ?cs" "in_component c' f" by blast
  with xf have "x \<in> set c'" by (auto simp: in_component_def)
  from only_component_of_node [OF d c'(1) this] only_component_of_node [OF d assms x]
  have "c' = c" by simp
  with c'(2) f show ?thesis by (auto simp: filter_empty_conv)
qed

subsection \<open>Constructing the walls of a group\<close>

lemma remdups_replicate_Suc: "remdups (replicate (Suc n) a) = [a]"
  by (induction n) simp_all

lemma nunique_constant:
  assumes "df \<noteq> []" and "\<forall>f \<in> set df. g f = Some a"
  shows "nunique (map g df) = 1"
proof -
  from assms(2) have "List.map_filter id (map g df) = replicate (length df) a"
    by (induction df) (simp_all add: List.map_filter_simps)
  moreover from assms(1) obtain n where "length df = Suc n" by (cases df) auto
  ultimately show ?thesis by (simp only: nunique_def remdups_replicate_Suc) simp
qed

lemma BuildingWall_init_uniform:
  assumes "df \<noteq> []" and "\<forall>f \<in> set df. face_normal f = Some k"
  shows "\<exists>w. BuildingWall_init df = Inr w \<and> wall_mesh_df w = df \<and> wall_ok w"
proof -
  have od: "one_direction df"
    unfolding one_direction_def
    using assms
    by (intro conjI nunique_constant [where a = "fst k"]
        nunique_constant [where a = "fst (snd k)"] nunique_constant [where a = "snd (snd k)"])
      simp_all
  from assms(1) obtain p qs where gv: "gathered_vertices df = p # qs"
    by (cases df) (auto simp: gathered_vertices_def)
  from assms obtain f fs where df: "df = f # fs" and fk: "face_normal f = Some k"
    by (cases df) auto
  define w where "w = \<lparr>wall_mesh_df = df, wall_domain = (fold vmin qs p, fold vmax qs p),
      wall_center = box_mean (fold vmin qs p, fold vmax qs p), wall_direction = Some k,
      wall_area = sum_list (map face_normal_magnitude df) / 2, wall_wwr = None\<rparr>"
  have "BuildingWall_init df = Inr w"
    using od gv fk by (simp add: BuildingWall_init_def bounding_box_def w_def df)
  moreover have "wall_mesh_df w = df" by (simp add: w_def)
  moreover have "wall_ok w"
    unfolding wall_ok_def using assms(2) fk by (simp add: w_def df list_all_iff)
  ultimately show ?thesis by (intro exI [of _ w] conjI)
qed

lemma collect_all_Inr:
  "\<forall>x \<in> set xs. \<exists>w. h x = Inr w \<and> p w = q x \<and> Q w \<Longrightarrow>
   \<exists>ws. collect (map h xs) = Inr ws \<and> map p ws = map q xs \<and> (\<forall>w \<in> set ws. Q w)"
proof (induction xs)
  case Nil
  then show ?case by simp
next
  case (Cons x xs)
  from Cons.prems obtain w where w: "h x = Inr w" "p w = q x" "Q w" by auto
  from Cons.prems have "\<forall>x \<in> set xs. \<exists>w. h x = Inr w \<and> p w = q x \<and> Q w" by simp
  from Cons.IH [OF this] obtain ws where
    "collect (map h xs) = Inr ws" "map p ws = map q xs" "\<forall>w \<in> set ws. Q w"
    by blast
  with w show ?case by simp
qed

lemma walls_of_group_partition:
  assumes "grp \<noteq> []" and "\<forall>f \<in> set grp. face_normal f = Some k"
  shows "\<exists>ws. walls_of_group grp = Inr ws \<and> mset (concat (map wall_mesh_df ws)) = mset grp \<and>
           (\<forall>w \<in> set ws. wall_ok w)"
proof (cases "length (get_connected_meshes_list grp) = 1")
  case True
  from BuildingWall_init_uniform [OF assms] obtain w where
    "BuildingWall_init grp = Inr w" "wall_mesh_df w = grp" "wall_ok w" by blast
  with True show ?thesis by (simp add: walls_of_group_def)
next
  case False
  let ?cs = "get_connected_meshes_list grp"
  have "\<forall>c \<in> set ?cs. \<exists>w. BuildingWall_init (filter (in_component c) grp) = Inr w \<and>
          wall_mesh_df w = filter (in_component c) grp \<and> wall_ok w"
  proof
    fix c assume "c \<in> set ?cs"
    then have "filter (in_component c) grp \<noteq> []" by (rule component_has_face)
    moreover have "\<forall>f \<in> set (filter (in_component c) grp). face_normal f = Some k"
      using assms(2) by simp
    ultimately show "\<exists>w. BuildingWall_init (filter (in_component c) grp) = Inr w \<and>
          wall_mesh_df w = filter (in_component c) grp \<and> wall_ok w"
      by (rule BuildingWall_init_uniform)
  qed
  from collect_all_Inr [where h = "\<lambda>c. BuildingWall_init (filter (in_component c) grp)"
      and p = wall_mesh_df and q = "\<lambda>c. filter (in_component c) grp" and Q = wall_ok, OF this]
  obtain ws where ws: "collect (map (\<lambda>c. BuildingWall_init (filter (in_component c) grp)) ?cs) = Inr ws"
    "map wall_mesh_df ws = map (\<lambda>c. filter (in_component c) grp) ?cs"
    "\<forall>w \<in> set ws. wall_ok w"
    by blast
  from ws(2) have "mset (concat (map wall_mesh_df ws)) = mset grp"
    by (simp add: components_partition_group)
  with ws(1,3) False show ?thesis by (simp add: walls_of_group_def)
qed

subsection \<open>Grouping by the normal\<close>

lemma set_map_filter_Some: "set (List.map_filter g xs) = {y. \<exists>x \<in> set xs. g x = Some y}"
  by (induction xs) (auto simp: List.map_filter_simps split: option.splits)

lemma mset_filter_disjoint:
  "\<forall>x \<in> set xs. \<not> (P x \<and> Q x) \<Longrightarrow>
   mset (filter P xs) + mset (filter Q xs) = mset (filter (\<lambda>x. P x \<or> Q x) xs)"
  by (induction xs) auto

lemma groups_of_distinct_keys:
  "distinct ks \<Longrightarrow>
   mset (concat (map (\<lambda>k. filter (\<lambda>f. key f = Some k) df) ks)) =
   mset (filter (\<lambda>f. key f \<in> Some ` set ks) df)"
proof (induction ks)
  case Nil
  then show ?case by simp
next
  case (Cons k ks)
  then have ih: "mset (concat (map (\<lambda>k. filter (\<lambda>f. key f = Some k) df) ks)) =
                 mset (filter (\<lambda>f. key f \<in> Some ` set ks) df)" by simp
  from Cons.prems have "\<forall>f \<in> set df. \<not> (key f = Some k \<and> key f \<in> Some ` set ks)" by auto
  then have "mset (filter (\<lambda>f. key f = Some k) df) + mset (filter (\<lambda>f. key f \<in> Some ` set ks) df) =
        mset (filter (\<lambda>f. key f = Some k \<or> key f \<in> Some ` set ks) df)"
    by (rule mset_filter_disjoint)
  moreover have "filter (\<lambda>f. key f = Some k \<or> key f \<in> Some ` set ks) df =
        filter (\<lambda>f. key f \<in> Some ` set (k # ks)) df"
    by (rule filter_cong) auto
  moreover have "mset (concat (map (\<lambda>k. filter (\<lambda>f. key f = Some k) df) (k # ks))) =
        mset (filter (\<lambda>f. key f = Some k) df) +
        mset (concat (map (\<lambda>k. filter (\<lambda>f. key f = Some k) df) ks))"
    by simp
  ultimately show ?case using ih by (simp only:)
qed

lemma groupby_normal_mset:
  "mset (concat (groupby_normal df)) = mset (filter (\<lambda>f. face_normal f \<noteq> None) df)"
proof -
  let ?ks = "sort (remdups (List.map_filter face_normal df))"
  have "distinct ?ks" by simp
  then have "mset (concat (groupby_normal df)) =
             mset (filter (\<lambda>f. face_normal f \<in> Some ` set ?ks) df)"
    unfolding groupby_normal_def by (rule groups_of_distinct_keys)
  also have "filter (\<lambda>f. face_normal f \<in> Some ` set ?ks) df =
             filter (\<lambda>f. face_normal f \<noteq> None) df"
    by (rule filter_cong) (auto simp: set_map_filter_Some)
  finally show ?thesis .
qed

lemma groupby_normal_groups:
  assumes "g \<in> set (groupby_normal df)"
  shows "g \<noteq> [] \<and> (\<exists>k. \<forall>f \<in> set g. face_normal f = Some k)"
proof -
  from assms obtain k where k: "k \<in> set (List.map_filter face_normal df)"
    and g: "g = filter (\<lambda>f. face_normal f = Some k) df"
    by (auto simp: groupby_normal_def)
  from k obtain f where "f \<in> set df" "face_normal f = Some k"
    by (auto simp: set_map_filter_Some)
  with g have "g \<noteq> []" by (auto simp: filter_empty_conv)
  moreover from g have "\<forall>f \<in> set g. face_normal f = Some k" by simp
  ultimately show ?thesis by blast
qed

lemma collect_groups:
  "\<forall>g \<in> set gs. \<exists>ws. h g = Inr ws \<and> mset (concat (map p ws)) = mset g \<and> (\<forall>w \<in> set ws. Q w) \<Longrightarrow>
   \<exists>wss. collect (map h gs) = Inr wss \<and>
          mset (concat (map p (concat wss))) = mset (concat gs) \<and>
          (\<forall>w \<in> set (concat wss). Q w)"
proof (induction gs)
  case Nil
  then show ?case by simp
next
  case (Cons g gs)
  from Cons.prems obtain ws where ws: "h g = Inr ws" "mset (concat (map p ws)) = mset g"
    "\<forall>w \<in> set ws. Q w" by auto
  from Cons.prems have
    "\<forall>g \<in> set gs. \<exists>ws. h g = Inr ws \<and> mset (concat (map p ws)) = mset g \<and> (\<forall>w \<in> set ws. Q w)"
    by simp
  from Cons.IH [OF this] obtain wss where wss: "collect (map h gs) = Inr wss"
    "mset (concat (map p (concat wss))) = mset (concat gs)" "\<forall>w \<in> set (concat wss). Q w"
    by blast
  have "collect (map h (g # gs)) = Inr (ws # wss)" using ws(1) wss(1) by simp
  moreover have "mset (concat (map p (concat (ws # wss)))) = mset (concat (g # gs))"
    using ws(2) wss(2) by simp
  moreover have "\<forall>w \<in> set (concat (ws # wss)). Q w" using ws(3) wss(3) by auto
  ultimately show ?case by (intro exI [of _ "ws # wss"] conjI)
qed

lemma get_building_walls_groups:
  "\<exists>walls. get_building_walls mesh_df = Inr walls \<and>
     mset (concat (map wall_mesh_df walls)) =
       mset (filter (\<lambda>f. face_normal f \<noteq> None) (wall_rows mesh_df)) \<and>
     (\<forall>w \<in> set walls. wall_ok w)"
proof -
  let ?gs = "groupby_normal (wall_rows mesh_df)"
  have "\<forall>g \<in> set ?gs. \<exists>ws. walls_of_group g = Inr ws \<and>
          mset (concat (map wall_mesh_df ws)) = mset g \<and> (\<forall>w \<in> set ws. wall_ok w)"
  proof
    fix g assume "g \<in> set ?gs"
    from groupby_normal_groups [OF this] obtain k where
      "g \<noteq> []" "\<forall>f \<in> set g. face_normal f = Some k" by blast
    then show "\<exists>ws. walls_of_group g = Inr ws \<and>
          mset (concat (map wall_mesh_df ws)) = mset g \<and> (\<forall>w \<in> set ws. wall_ok w)"
      by (rule walls_of_group_partition)
  qed
  from collect_groups [where h = walls_of_group and p = wall_mesh_df and Q = wall_ok, OF this]
  obtain wss where wss: "collect (map walls_of_group ?gs) = Inr wss"
    "mset (concat (map wall_mesh_df (concat wss))) = mset (concat ?gs)"
    "\<forall>w \<in> set (concat wss). wall_ok w" by blast
  have "get_building_walls mesh_df = Inr (concat wss)"
    using wss(1) by (simp add: get_building_walls_def)
  moreover have "mset (concat (map wall_mesh_df (concat wss))) =
       mset (filter (\<lambda>f. face_normal f \<noteq> None) (wall_rows mesh_df))"
    using wss(2) by (simp only: groupby_normal_mset)
  ultimately show ?thesis using wss(3) by (intro exI [of _ "concat wss"] conjI)
qed

lemma mset_filter_three_way:
  "\<forall>x \<in> set xs.
      (if D x then (A x \<and> \<not> B x \<and> \<not> C x) \<or> (\<not> A x \<and> B x \<and> \<not> C x) \<or>
                   (\<not> A x \<and> \<not> B x \<and> C x)
       else \<not> A x \<and> \<not> B x \<and> \<not> C x) \<Longrightarrow>
   mset (filter A xs) + mset (filter B xs) + mset (filter C xs) = mset (filter D xs)"
proof (induction xs)
  case Nil
  then show ?case by simp
next
  case (Cons x xs)
  then have ih: "mset (filter A xs) + mset (filter B xs) + mset (filter C xs) = mset (filter D xs)"
    by simp
  from Cons.prems have
    "if D x then (A x \<and> \<not> B x \<and> \<not> C x) \<or> (\<not> A x \<and> B x \<and> \<not> C x) \<or>
                 (\<not> A x \<and> \<not> B x \<and> C x)
     else \<not> A x \<and> \<not> B x \<and> \<not> C x" by simp
  then show ?case using ih by (cases "D x"; cases "A x"; cases "B x"; cases "C x") simp_all
qed

lemma wall_rows_split:
  "mset (filter (\<lambda>f. face_normal f \<noteq> None) (wall_rows mesh_df)) +
   mset (filter vertical_wall mesh_df) + mset (filter undefined_normal_wall mesh_df) =
   mset (filter is_wall mesh_df)"
proof -
  let ?A = "\<lambda>f. (seg_class f = ''wall'' \<and> \<not> normal_z_is 1 f \<and> \<not> normal_z_is (- 1) f) \<and>
                face_normal f \<noteq> None"
  have "filter (\<lambda>f. face_normal f \<noteq> None) (wall_rows mesh_df) = filter ?A mesh_df"
    by (simp add: wall_rows_def)
  moreover have "mset (filter ?A mesh_df) + mset (filter vertical_wall mesh_df) +
      mset (filter undefined_normal_wall mesh_df) = mset (filter is_wall mesh_df)"
  proof (rule mset_filter_three_way, rule ballI)
    fix f :: nface
    show "if is_wall f
          then (?A f \<and> \<not> vertical_wall f \<and> \<not> undefined_normal_wall f) \<or>
               (\<not> ?A f \<and> vertical_wall f \<and> \<not> undefined_normal_wall f) \<or>
               (\<not> ?A f \<and> \<not> vertical_wall f \<and> undefined_normal_wall f)
          else \<not> ?A f \<and> \<not> vertical_wall f \<and> \<not> undefined_normal_wall f"
      by (cases "face_normal f")
        (auto simp: is_wall_def vertical_wall_def undefined_normal_wall_def normal_z_is_def)
  qed
  ultimately show ?thesis by (simp only:)
qed

section \<open>The constructor on the corner example\<close>

lemmas corner_defs =
  corner_seg_map_def corner_points_def corner_meshes_def corner_classified_def
  mk_vertex_def mk_face_def corner_wall_A_def corner_wall_B_def corner_window_def
  corner_mesh_df_def building_wall_A_def building_wall_B_def

lemma corner_fix_vertex_colors:
  "fix_vertex_colors (pop_background corner_seg_map) corner_points =
     Inr (map (\<lambda>v. v\<lparr>seg_class_v := []\<rparr>) corner_classified)"
  by (simp add: corner_defs pop_background_def fix_vertex_colors_def color_quantization_def
      build_pixel_dict_def closest_def uint8_store_def)

lemma corner_assign_classes:
  "assign_classes (pop_background corner_seg_map)
     (map (\<lambda>v. v\<lparr>seg_class_v := []\<rparr>) corner_classified) = corner_classified"
  by (simp add: corner_defs pop_background_def assign_classes_def assign_class_def)

lemma corner_get_segmented_mesh_info:
  "get_segmented_mesh_info corner_classified corner_meshes =
     Inr (map face.truncate corner_mesh_df)"
  by (simp add: corner_defs get_segmented_mesh_info_def face_of_row_def merge_vertex_def
      point_attrs.truncate_def face.truncate_def)

lemma sqrt_256: "sqrt 256 = 16"
  using real_sqrt_abs [of 16] by simp

lemma corner_add_triangle_face_normals:
  "add_triangle_face_normals (map face.truncate corner_mesh_df) = Inr corner_mesh_df"
  by (simp add: corner_defs add_triangle_face_normals_def triangle_face_normals_def
      check_angles_def check_angle_iff with_normal_def np_norm_def face.extend_def
      nface.fields_def face.truncate_def sqrt_256)

lemma corner_window_graphs:
  "get_connected_meshes_list (filter (\<lambda>f. seg_class f = ''window'') corner_mesh_df) = [[8, 7, 6]]"
  by (simp add: corner_defs get_connected_meshes_list_def connected_components_def
      graph_edges_def add_edge_def touches_def)

lemma corner_get_building_walls:
  "get_building_walls corner_mesh_df = Inr [building_wall_A, building_wall_B]"
  by (simp add: corner_defs get_building_walls_def wall_rows_def normal_z_is_def
      groupby_normal_def List.map_filter_simps walls_of_group_def get_connected_meshes_list_def
      connected_components_def graph_edges_def add_edge_def touches_def BuildingWall_init_def
      one_direction_def nunique_def bounding_box_def gathered_vertices_def box_mean_def
      in_component_def)

lemma corner_windows_on_wall_A:
  "get_windows_on_wall corner_mesh_df [[8, 7, 6]] building_wall_A = Inr [[8, 7, 6]]"
  by (simp add: corner_defs get_windows_on_wall_def intersecting_edges_def windows_mesh_edges_def
      probe_plane_def find_if_line_and_plane_intersect_zip edge_rule_def edge_parallel_def
      edge_t_def plane_normal_def plane_offset_def)

lemma corner_windows_on_wall_B:
  "get_windows_on_wall corner_mesh_df [[8, 7, 6]] building_wall_B = Inr [[8, 7, 6]]"
  by (simp add: corner_defs get_windows_on_wall_def intersecting_edges_def windows_mesh_edges_def
      probe_plane_def find_if_line_and_plane_intersect_zip edge_rule_def edge_parallel_def
      edge_t_def plane_normal_def plane_offset_def)

lemma corner_window_area:
  "get_window_area_from_component_graph corner_classified [8, 7, 6] = Inr 1"
  by (simp add: corner_defs get_window_area_from_component_graph_def node_location_def
      bounding_box_def largest_face_def)

lemma corner_set_wwr_per_wall:
  "set_wwr_per_wall corner_classified corner_mesh_df [[8, 7, 6]] [building_wall_A, building_wall_B] =
     Inr [set_wwr building_wall_A 1, set_wwr building_wall_B 1]"
  by (simp add: set_wwr_per_wall_def set_wwr_of_wall_def corner_windows_on_wall_A
      corner_windows_on_wall_B get_all_window_area_def corner_window_area)

lemma corner_init:
  "Segmented3DModel_init corner_seg_map corner_points corner_meshes =
     Inr \<lparr>model_points = corner_classified, model_mesh_df = corner_mesh_df,
          model_window_graphs = [[8, 7, 6]],
          model_building_walls = [set_wwr building_wall_A 1, set_wwr building_wall_B 1]\<rparr>"
  by (simp add: Segmented3DModel_init_def corner_fix_vertex_colors corner_assign_classes
      corner_get_segmented_mesh_info corner_add_triangle_face_normals corner_window_graphs
      corner_get_building_walls corner_set_wwr_per_wall)

text \<open>
  Claim C10. Window-to-wall assignment is not exclusive. The constructor builds the corner
  example into a model with the two distinct walls A and B and one window component;
  the window query, computed for each wall on its own, returns that same component for
  wall A (its edges lie in the plane of A, inside A's domain) and for wall B (its edges
  touch or lie in the plane of B), and its bounding-box area 1 enters the ratio of both
  walls, \<open>1 / 8\<close> each.
\<close>

theorem window_counted_on_two_walls:
  "Segmented3DModel_init corner_seg_map corner_points corner_meshes =
     Inr \<lparr>model_points = corner_classified, model_mesh_df = corner_mesh_df,
          model_window_graphs = [[8, 7, 6]],
          model_building_walls = [set_wwr building_wall_A 1, set_wwr building_wall_B 1]\<rparr> \<and>
   building_wall_A \<noteq> building_wall_B \<and>
   get_windows_on_wall corner_mesh_df [[8, 7, 6]] building_wall_A = Inr [[8, 7, 6]] \<and>
   get_windows_on_wall corner_mesh_df [[8, 7, 6]] building_wall_B = Inr [[8, 7, 6]] \<and>
   get_window_area_from_component_graph corner_classified [8, 7, 6] = Inr 1 \<and>
   wall_wwr (set_wwr building_wall_A 1) = Some (Finite (1 / 8)) \<and>
   wall_wwr (set_wwr building_wall_B 1) = Some (Finite (1 / 8))"
proof -
  have "building_wall_A \<noteq> building_wall_B"
    by (simp add: building_wall_A_def building_wall_B_def)
  moreover have "wall_wwr (set_wwr building_wall_A 1) = Some (Finite (1 / 8))"
    by (simp add: set_wwr_def np_divide_def building_wall_A_def)
  moreover have "wall_wwr (set_wwr building_wall_B 1) = Some (Finite (1 / 8))"
    by (simp add: set_wwr_def np_divide_def building_wall_B_def)
  ultimately show ?thesis
    by (intro conjI corner_init corner_windows_on_wall_A corner_windows_on_wall_B
        corner_window_area)
qed

section \<open>The wall partition\<close>

lemma distinct_of_mset_part:
  assumes "mset xs + M = mset ys" and "distinct ys"
  shows "distinct xs"
  unfolding distinct_count_atmost_1
proof (intro allI)
  fix a
  have "count (mset xs + M) a = count (mset ys) a" by (simp only: assms(1))
  then have le1: "count (mset xs) a \<le> count (mset ys) a" by simp
  have le2: "count (mset ys) a \<le> 1" using assms(2) by (simp add: distinct_count_atmost_1)
  show "count (mset xs) a = (if a \<in> set xs then 1 else 0)"
  proof (cases "a \<in> set xs")
    case True
    then have "0 < count (mset xs) a" by (simp add: count_greater_zero_iff)
    with le1 le2 have "count (mset xs) a = 1" by linarith
    with True show ?thesis by (simp only: if_True)
  next
    case False
    then have "count (mset xs) a = 0" by (simp add: count_eq_zero_iff)
    with False show ?thesis by (simp only: if_False)
  qed
qed

lemma degenerate_init:
  "Segmented3DModel_init corner_seg_map degenerate_points [(0, 1, 1)] =
     Inr \<lparr>model_points = degenerate_points, model_mesh_df = [degenerate_row],
          model_window_graphs = [], model_building_walls = []\<rparr>"
proof -
  have f: "fix_vertex_colors (pop_background corner_seg_map) degenerate_points =
        Inr degenerate_points"
    by (simp add: corner_seg_map_def degenerate_points_def mk_vertex_def pop_background_def
        fix_vertex_colors_def color_quantization_def build_pixel_dict_def closest_def
        uint8_store_def)
  have a: "assign_classes (pop_background corner_seg_map) degenerate_points = degenerate_points"
    by (simp add: corner_seg_map_def degenerate_points_def mk_vertex_def pop_background_def
        assign_classes_def assign_class_def)
  have j: "get_segmented_mesh_info degenerate_points [(0, 1, 1)] =
        Inr [face.truncate degenerate_row]"
    by (simp add: degenerate_points_def degenerate_row_def mk_vertex_def mk_face_def
        get_segmented_mesh_info_def face_of_row_def merge_vertex_def point_attrs.truncate_def
        face.truncate_def)
  have n: "add_triangle_face_normals [face.truncate degenerate_row] = Inr [degenerate_row]"
    by (simp add: degenerate_row_def mk_face_def add_triangle_face_normals_def
        triangle_face_normals_def check_angles_def check_angle_iff with_normal_def np_norm_def
        face.extend_def nface.fields_def face.truncate_def)
  have g: "get_connected_meshes_list (filter (\<lambda>f. seg_class f = ''window'') [degenerate_row]) = []"
    by (simp add: degenerate_row_def mk_face_def get_connected_meshes_list_def
        connected_components_def graph_edges_def)
  have w: "get_building_walls [degenerate_row] = Inr []"
    by (simp add: degenerate_row_def mk_face_def get_building_walls_def wall_rows_def
        normal_z_is_def groupby_normal_def List.map_filter_simps)
  show ?thesis
    unfolding Segmented3DModel_init_def Let_def f sum.case a j n g w
    by (simp add: set_wwr_per_wall_def)
qed

text \<open>
  Claim C1, as stated, fails on the code for a wall-class face of zero area. The constructor
  accepts a triangle whose second and third vertex coincide: the cross product is the
  zero vector, \<open>check_angles\<close> flags nothing, and the unit normal \<open>0 / 0\<close> is NaN. The row
  passes both tests \<open>face_normal_z != 1\<close> and \<open>face_normal_z != -1\<close>, so it is not among
  the excluded vertical faces, and \<open>groupby\<close> drops it, so it is in no wall: the walls
  (none) and the excluded vertical faces (none) do not make up the wall-class faces.
\<close>

theorem wall_partition_counterexample:
  "Segmented3DModel_init corner_seg_map degenerate_points [(0, 1, 1)] =
     Inr \<lparr>model_points = degenerate_points, model_mesh_df = [degenerate_row],
          model_window_graphs = [], model_building_walls = []\<rparr> \<and>
   get_building_walls [degenerate_row] = Inr [] \<and>
   filter vertical_wall [degenerate_row] = [] \<and>
   filter is_wall [degenerate_row] = [degenerate_row] \<and>
   mset (concat (map wall_mesh_df ([] :: BuildingWall list))) +
     mset (filter vertical_wall [degenerate_row]) \<noteq> mset (filter is_wall [degenerate_row])"
proof -
  have w: "get_building_walls [degenerate_row] = Inr []"
    by (simp add: degenerate_row_def mk_face_def get_building_walls_def wall_rows_def
        normal_z_is_def groupby_normal_def List.map_filter_simps)
  have v: "filter vertical_wall [degenerate_row] = []"
    by (simp add: degenerate_row_def mk_face_def vertical_wall_def normal_z_is_def)
  have i: "filter is_wall [degenerate_row] = [degenerate_row]"
    by (simp add: degenerate_row_def mk_face_def is_wall_def)
  have p: "mset (concat (map wall_mesh_df ([] :: BuildingWall list))) +
     mset (filter vertical_wall [degenerate_row]) \<noteq> mset (filter is_wall [degenerate_row])"
    unfolding v i by simp
  show ?thesis by (intro conjI degenerate_init w v i p)
qed

text \<open>
  Claim C1, amended. For every face table, \<open>_get_building_walls\<close> returns walls (it raises
  nothing) such that the rows of the walls, the excluded wall rows with a purely vertical
  normal, and the wall rows whose normal is undefined (NaN, the faces of zero area) are
  together exactly the wall-class rows, each row counted once; so no row appears in two
  walls, and when the rows of the table are pairwise different the walls' row lists are
  duplicate-free and pairwise disjoint. Every wall has at least one row, and all of its
  rows have one and the same normal, which is not NaN.
\<close>

theorem wall_partition:
  "\<exists>walls. get_building_walls mesh_df = Inr walls \<and>
     mset (concat (map wall_mesh_df walls)) + mset (filter vertical_wall mesh_df) +
       mset (filter undefined_normal_wall mesh_df) = mset (filter is_wall mesh_df) \<and>
     list_all wall_ok walls \<and>
     (distinct mesh_df \<longrightarrow> distinct (concat (map wall_mesh_df walls)))"
proof -
  from get_building_walls_groups [of mesh_df] obtain walls where
    w: "get_building_walls mesh_df = Inr walls"
    and m: "mset (concat (map wall_mesh_df walls)) =
            mset (filter (\<lambda>f. face_normal f \<noteq> None) (wall_rows mesh_df))"
    and ok: "\<forall>w \<in> set walls. wall_ok w" by blast
  have part: "mset (concat (map wall_mesh_df walls)) + mset (filter vertical_wall mesh_df) +
       mset (filter undefined_normal_wall mesh_df) = mset (filter is_wall mesh_df)"
    unfolding m by (rule wall_rows_split)
  have dis: "distinct (concat (map wall_mesh_df walls))" if "distinct mesh_df"
  proof -
    from that have "distinct (filter is_wall mesh_df)" by simp
    moreover have "mset (concat (map wall_mesh_df walls)) +
        (mset (filter vertical_wall mesh_df) + mset (filter undefined_normal_wall mesh_df)) =
        mset (filter is_wall mesh_df)"
      using part by (simp only: add.assoc)
    ultimately show ?thesis by (rule distinct_of_mset_part [rotated])
  qed
  have "list_all wall_ok walls" using ok by (simp add: list_all_iff)
  with w part dis show ?thesis by (intro exI [of _ walls] conjI impI)
qed

theorem wall_partition_witness:
  "distinct corner_mesh_df \<and>
   (\<exists>walls. get_building_walls corner_mesh_df = Inr walls \<and>
      map wall_mesh_df walls = [[corner_wall_A], [corner_wall_B]] \<and>
      distinct (concat (map wall_mesh_df walls)))"
proof -
  have d: "distinct corner_mesh_df" by (simp add: corner_defs)
  from wall_partition [of corner_mesh_df] obtain walls where
    w: "get_building_walls corner_mesh_df = Inr walls"
    and i: "distinct corner_mesh_df \<longrightarrow> distinct (concat (map wall_mesh_df walls))"
    by (elim exE conjE)
  from i d have dw: "distinct (concat (map wall_mesh_df walls))" by (rule mp)
  from w corner_get_building_walls have "walls = [building_wall_A, building_wall_B]" by simp
  then have "map wall_mesh_df walls = [[corner_wall_A], [corner_wall_B]]"
    by (simp add: building_wall_A_def building_wall_B_def)
  with d w dw show ?thesis by (intro conjI exI [of _ walls])
qed

section \<open>Mixed-class faces\<close>

text \<open>
  Claim C2. If some row of the triangle table has vertices of different classes (or a
  vertex id without a row in the vertex table), \<open>_get_segmented_mesh_info\<close> raises
  \<open>NotImplementedError\<close>, the exception the spec calls InconsistentClassificationError,
  and so does the constructor, which returns no model, whenever the table classified by
  \<open>_fix_vertex_colors\<close> and \<open>_assign_classes\<close> has such a row. If all rows agree, the join
  returns one face per row, in order, with the row's vertex ids and the common class of
  its three vertices. A triangle table without rows passes the test: \<open>apply\<close> gives an
  empty series, whose \<open>all()\<close> is true.
\<close>

theorem mixed_class_faces_fail:
  "(\<not> list_all (classes_agree points) meshes \<longrightarrow>
      get_segmented_mesh_info points meshes = Inl NotImplementedError) \<and>
   (list_all (classes_agree points) meshes \<longrightarrow>
      (\<exists>mesh_df. get_segmented_mesh_info points meshes = Inr mesh_df \<and>
         list_all2 (\<lambda>row f. case row of (a, b, c) \<Rightarrow>
            a < length points \<and> b < length points \<and> c < length points \<and>
            id_v1 f = a \<and> id_v2 f = b \<and> id_v3 f = c \<and>
            seg_class f = seg_class_v (points ! a) \<and>
            seg_class f = seg_class_v (points ! b) \<and>
            seg_class f = seg_class_v (points ! c)) meshes mesh_df)) \<and>
   (fix_vertex_colors (pop_background seg_map) pts = Inr fixed \<longrightarrow>
    \<not> list_all (classes_agree (assign_classes (pop_background seg_map) fixed)) meshes \<longrightarrow>
      Segmented3DModel_init seg_map pts meshes = Inl NotImplementedError)"
proof (intro conjI impI)
  assume "\<not> list_all (classes_agree points) meshes"
  then show "get_segmented_mesh_info points meshes = Inl NotImplementedError"
    by (rule get_segmented_mesh_info_fails)
next
  assume "list_all (classes_agree points) meshes"
  from get_segmented_mesh_info_succeeds [OF this] obtain mesh_df where
    r: "get_segmented_mesh_info points meshes = Inr mesh_df"
    and l: "length mesh_df = length meshes"
    and n: "\<forall>i < length meshes. face_of_row points (meshes ! i) = Some (mesh_df ! i)"
    by (elim exE conjE)
  have "list_all2 (\<lambda>row f. case row of (a, b, c) \<Rightarrow>
            a < length points \<and> b < length points \<and> c < length points \<and>
            id_v1 f = a \<and> id_v2 f = b \<and> id_v3 f = c \<and>
            seg_class f = seg_class_v (points ! a) \<and>
            seg_class f = seg_class_v (points ! b) \<and>
            seg_class f = seg_class_v (points ! c)) meshes mesh_df"
    unfolding list_all2_conv_all_nth
  proof (intro conjI allI impI)
    show "length meshes = length mesh_df" using l by simp
  next
    fix i assume i: "i < length meshes"
    obtain a b c where row: "meshes ! i = (a, b, c)" by (rule prod_cases3)
    from n i have "face_of_row points (meshes ! i) = Some (mesh_df ! i)" by blast
    then have "face_of_row points (a, b, c) = Some (mesh_df ! i)" by (simp only: row)
    from face_of_row_Some [OF this] show "case meshes ! i of (a, b, c) \<Rightarrow>
            a < length points \<and> b < length points \<and> c < length points \<and>
            id_v1 (mesh_df ! i) = a \<and> id_v2 (mesh_df ! i) = b \<and> id_v3 (mesh_df ! i) = c \<and>
            seg_class (mesh_df ! i) = seg_class_v (points ! a) \<and>
            seg_class (mesh_df ! i) = seg_class_v (points ! b) \<and>
            seg_class (mesh_df ! i) = seg_class_v (points ! c)"
      by (auto simp: row)
  qed
  with r show "\<exists>mesh_df. get_segmented_mesh_info points meshes = Inr mesh_df \<and>
         list_all2 (\<lambda>row f. case row of (a, b, c) \<Rightarrow>
            a < length points \<and> b < length points \<and> c < length points \<and>
            id_v1 f = a \<and> id_v2 f = b \<and> id_v3 f = c \<and>
            seg_class f = seg_class_v (points ! a) \<and>
            seg_class f = seg_class_v (points ! b) \<and>
            seg_class f = seg_class_v (points ! c)) meshes mesh_df"
    by (intro exI [of _ mesh_df] conjI)
next
  assume f: "fix_vertex_colors (pop_background seg_map) pts = Inr fixed"
    and "\<not> list_all (classes_agree (assign_classes (pop_background seg_map) fixed)) meshes"
  from get_segmented_mesh_info_fails [OF this(2)] f
  show "Segmented3DModel_init seg_map pts meshes = Inl NotImplementedError"
    by (simp add: Segmented3DModel_init_def)
qed

theorem mixed_class_faces_fail_witness:
  "\<not> list_all (classes_agree corner_classified) [(0, 6, 1)] \<and>
   get_segmented_mesh_info corner_classified [(0, 6, 1)] = Inl NotImplementedError \<and>
   Segmented3DModel_init corner_seg_map corner_points [(0, 6, 1)] = Inl NotImplementedError \<and>
   list_all (classes_agree corner_classified) corner_meshes \<and>
   (\<exists>mesh_df. get_segmented_mesh_info corner_classified corner_meshes = Inr mesh_df \<and>
      map seg_class mesh_df = [''wall'', ''wall'', ''window''])"
proof -
  have mixed: "\<not> list_all (classes_agree corner_classified) [(0, 6, 1)]"
    by (simp add: corner_classified_def mk_vertex_def classes_agree_def same_class_def
        merge_vertex_def)
  have agree: "list_all (classes_agree corner_classified) corner_meshes"
    by (simp add: corner_classified_def corner_meshes_def mk_vertex_def classes_agree_def
        same_class_def merge_vertex_def)
  have j: "get_segmented_mesh_info corner_classified [(0, 6, 1)] = Inl NotImplementedError"
    by (rule mp [OF conjunct1 [OF mixed_class_faces_fail] mixed])
  have mixed': "\<not> list_all (classes_agree (assign_classes (pop_background corner_seg_map)
      (map (\<lambda>v. v\<lparr>seg_class_v := []\<rparr>) corner_classified))) [(0, 6, 1)]"
    unfolding corner_assign_classes by (rule mixed)
  have c: "Segmented3DModel_init corner_seg_map corner_points [(0, 6, 1)] =
      Inl NotImplementedError"
    by (rule mp [OF mp [OF conjunct2 [OF conjunct2 [OF mixed_class_faces_fail]]
          corner_fix_vertex_colors] mixed'])
  have "\<exists>mesh_df. get_segmented_mesh_info corner_classified corner_meshes = Inr mesh_df"
    using mp [OF conjunct1 [OF conjunct2 [OF mixed_class_faces_fail]] agree]
    by (elim exE conjE) (rule exI)
  then obtain mesh_df where
    r: "get_segmented_mesh_info corner_classified corner_meshes = Inr mesh_df" ..
  with corner_get_segmented_mesh_info have "mesh_df = map face.truncate corner_mesh_df" by simp
  then have "map seg_class mesh_df = [''wall'', ''wall'', ''window'']"
    by (simp add: corner_defs face.truncate_def)
  with r mixed j c agree show ?thesis by (intro conjI exI [of _ mesh_df])
qed

section \<open>Division by a wall area of zero\<close>

lemma window_init:
  "Segmented3DModel_init corner_seg_map window_points [(0, 2, 1)] =
     Inr \<lparr>model_points = window_classified, model_mesh_df = [window_face],
          model_window_graphs = [[2, 1, 0]], model_building_walls = []\<rparr>"
proof -
  have f: "fix_vertex_colors (pop_background corner_seg_map) window_points =
        Inr (map (\<lambda>v. v\<lparr>seg_class_v := []\<rparr>) window_classified)"
    by (simp add: corner_seg_map_def window_points_def window_classified_def mk_vertex_def
        pop_background_def fix_vertex_colors_def color_quantization_def build_pixel_dict_def
        closest_def uint8_store_def)
  have a: "assign_classes (pop_background corner_seg_map)
        (map (\<lambda>v. v\<lparr>seg_class_v := []\<rparr>) window_classified) = window_classified"
    by (simp add: corner_seg_map_def window_classified_def mk_vertex_def pop_background_def
        assign_classes_def assign_class_def)
  have j: "get_segmented_mesh_info window_classified [(0, 2, 1)] =
        Inr [face.truncate window_face]"
    by (simp add: window_classified_def window_face_def mk_vertex_def mk_face_def
        get_segmented_mesh_info_def face_of_row_def merge_vertex_def point_attrs.truncate_def
        face.truncate_def)
  have n: "add_triangle_face_normals [face.truncate window_face] = Inr [window_face]"
    by (simp add: window_face_def mk_face_def add_triangle_face_normals_def
        triangle_face_normals_def check_angles_def check_angle_iff with_normal_def np_norm_def
        face.extend_def nface.fields_def face.truncate_def)
  have g: "get_connected_meshes_list (filter (\<lambda>f. seg_class f = ''window'') [window_face]) =
        [[2, 1, 0]]"
    by (simp add: window_face_def mk_face_def get_connected_meshes_list_def
        connected_components_def graph_edges_def add_edge_def touches_def)
  have w: "get_building_walls [window_face] = Inr []"
    by (simp add: window_face_def mk_face_def get_building_walls_def wall_rows_def
        normal_z_is_def groupby_normal_def List.map_filter_simps)
  show ?thesis
    unfolding Segmented3DModel_init_def Let_def f sum.case a j n g w
    by (simp add: set_wwr_per_wall_def)
qed

lemma window_all_window_area: "get_all_window_area window_classified [[2, 1, 0]] = Inr 1"
  by (simp add: window_classified_def mk_vertex_def get_all_window_area_def
      get_window_area_from_component_graph_def node_location_def bounding_box_def
      largest_face_def)

lemma window_all_wall_area: "get_all_wall_area [window_face] = 0"
  by (simp add: window_face_def mk_face_def get_all_wall_area_def side_wall_def)

lemma flat_wall_init: "BuildingWall_init [flat_wall_row] = Inr flat_wall"
  by (simp add: flat_wall_def flat_wall_row_def mk_face_def BuildingWall_init_def
      one_direction_def nunique_def bounding_box_def gathered_vertices_def box_mean_def)

text \<open>
  Claim C5, as stated, fails on the code: no exception is raised for a wall area of 0.
  The constructor builds the model that holds one window and no wall; its wall area is 0,
  its windows area 1, and \<open>wwr\<close> returns the numpy quotient \<open>1 / 0\<close>, which is \<open>inf\<close>.
  \<open>BuildingWall.set_wwr\<close> on a wall object of area 0 stores \<open>inf\<close> likewise, and NaN when
  the windows area is 0 too.
\<close>

theorem zero_wall_area_counterexample:
  "Segmented3DModel_init corner_seg_map window_points [(0, 2, 1)] =
     Inr \<lparr>model_points = window_classified, model_mesh_df = [window_face],
          model_window_graphs = [[2, 1, 0]], model_building_walls = []\<rparr> \<and>
   get_all_wall_area [window_face] = 0 \<and>
   overall_wwr window_classified [window_face] [[2, 1, 0]] = Inr PosInf \<and>
   BuildingWall_init [flat_wall_row] = Inr flat_wall \<and>
   wall_area flat_wall = 0 \<and>
   wall_wwr (set_wwr flat_wall 1) = Some PosInf \<and>
   wall_wwr (set_wwr flat_wall 0) = Some NaN"
proof -
  have o: "overall_wwr window_classified [window_face] [[2, 1, 0]] = Inr PosInf"
    by (simp del: One_nat_def add: overall_wwr_def window_all_wall_area window_all_window_area
        np_divide_def zero_division_def)
  have z: "wall_area flat_wall = 0" by (simp add: flat_wall_def)
  have p: "wall_wwr (set_wwr flat_wall 1) = Some PosInf"
    by (simp add: set_wwr_def z np_divide_def zero_division_def)
  have q: "wall_wwr (set_wwr flat_wall 0) = Some NaN"
    by (simp add: set_wwr_def z np_divide_def zero_division_def)
  show ?thesis by (intro conjI window_init window_all_wall_area o flat_wall_init z p q)
qed

text \<open>
  Claim C5, amended. A wall area of 0 raises nothing. When the overall wall area is 0,
  \<open>wwr\<close> returns what numpy's division by zero gives for the windows area: NaN if it is 0,
  \<open>inf\<close> if it is positive, \<open>-inf\<close> if it is negative (it fails only where the windows area
  itself cannot be computed). \<open>BuildingWall.set_wwr\<close> on a wall of area 0 stores the same
  value as the wall's ratio and changes nothing else.
\<close>

theorem zero_wall_area_gives_nan_or_inf:
  "(get_all_wall_area df = 0 \<longrightarrow>
      overall_wwr pts df graphs =
        (case get_all_window_area pts graphs of
           Inl e \<Rightarrow> Inl e
         | Inr windows_area \<Rightarrow> Inr (zero_division windows_area))) \<and>
   (wall_area wall = 0 \<longrightarrow>
      set_wwr wall windows_area = wall\<lparr>wall_wwr := Some (zero_division windows_area)\<rparr>) \<and>
   zero_division windows_area =
     (if windows_area = 0 then NaN else if 0 < windows_area then PosInf else NegInf)"
  by (simp add: overall_wwr_def set_wwr_def np_divide_def zero_division_def
      split: sum.splits)

theorem zero_wall_area_gives_nan_or_inf_witness:
  "get_all_wall_area [window_face] = 0 \<and>
   overall_wwr window_classified [window_face] [[2, 1, 0]] = Inr PosInf \<and>
   wall_area flat_wall = 0 \<and>
   set_wwr flat_wall 1 = flat_wall\<lparr>wall_wwr := Some PosInf\<rparr>"
proof -
  have z: "wall_area flat_wall = 0" by (simp add: flat_wall_def)
  note inst = zero_wall_area_gives_nan_or_inf
      [of "[window_face]" window_classified "[[2, 1, 0]]" flat_wall 1]
  from inst window_all_wall_area
  have o: "overall_wwr window_classified [window_face] [[2, 1, 0]] = Inr PosInf"
    by (simp del: One_nat_def add: window_all_window_area)
  from inst z have s: "set_wwr flat_wall 1 = flat_wall\<lparr>wall_wwr := Some PosInf\<rparr>"
    by simp
  show ?thesis by (intro conjI window_all_wall_area o z s)
qed

end
